theory Spec2Isabelle
  imports Complex_Main
begin

section \<open>Hard-particle Monte Carlo workflows: the notebooks' own code\<close>

text \<open>
  The notebooks drive the HOOMD-blue engine. The model below follows the code cells of
  \<^verbatim>\<open>02-Homework/02-Hard-Sphereocylinders.ipynb\<close> (the functions \<^verbatim>\<open>initialize\<close>,
  \<^verbatim>\<open>randomize\<close>, \<^verbatim>\<open>compress\<close>, \<^verbatim>\<open>equilibrate\<close>, \<^verbatim>\<open>run_simulation\<close>), of the
  spherocylinder walk-through (\<^verbatim>\<open>src/unnamed/part_000\<close>) and of the hard sphere tutorial.
  Where a float decides what the code does next (a division that may raise, the integer that
  \<^verbatim>\<open>math.ceil\<close> returns), the arithmetic is that of IEEE 754 doubles; coordinates and
  volumes, which only flow through to the files, are read as real numbers.
\<close>

subsection \<open>Python values and errors\<close>

datatype error =
    ZeroDivisionError
  | OverflowError
  | ValueError
  | RuntimeError string
  | ReadError string

text \<open>Sequencing of steps that may raise.\<close>

definition and_then :: "error + 'a \<Rightarrow> ('a \<Rightarrow> error + 'b) \<Rightarrow> error + 'b" where
  "and_then r f = (case r of Inl e \<Rightarrow> Inl e | Inr v \<Rightarrow> f v)"

subsection \<open>Python floats\<close>

text \<open>
  A Python float is an IEEE 754 double: a finite value, an infinity (\<open>Inf True\<close> is
  \<^verbatim>\<open>inf\<close>, \<open>Inf False\<close> is \<^verbatim>\<open>-inf\<close>) or \<^verbatim>\<open>nan\<close>. The sign of a zero is not
  kept: the code below never tells \<^verbatim>\<open>-0.0\<close> from \<^verbatim>\<open>0.0\<close>.
\<close>

datatype fval = Fin real | Inf bool | NaN

text \<open>Rounding to the nearest integer, a tie going to the even one.\<close>

definition rne :: "real \<Rightarrow> int" where
  "rne x =
     (if x - of_int \<lfloor>x\<rfloor> < 1 / 2 then \<lfloor>x\<rfloor>
      else if 1 / 2 < x - of_int \<lfloor>x\<rfloor> then \<lfloor>x\<rfloor> + 1
      else if even \<lfloor>x\<rfloor> then \<lfloor>x\<rfloor> else \<lfloor>x\<rfloor> + 1)"

text \<open>
  The spacing of the doubles around \<open>x \<noteq> 0\<close>: 53 significant bits, and below
  \<^verbatim>\<open>2**-1022\<close> the spacing \<^verbatim>\<open>2**-1074\<close> of the subnormal numbers.
\<close>

definition quantum :: "real \<Rightarrow> real" where
  "quantum x = 2 powr of_int (max \<lfloor>log 2 \<bar>x\<bar>\<rfloor> (- 1022) - 52)"

text \<open>The magnitude of \<open>x\<close> rounded to a multiple of the spacing.\<close>

definition mag :: "real \<Rightarrow> real" where
  "mag x = of_int (rne (\<bar>x\<bar> / quantum x)) * quantum x"

text \<open>
  The double nearest to a real number (round to nearest, ties to even), infinite from
  \<^verbatim>\<open>2**1024\<close> on. The basic operations and \<^verbatim>\<open>math.sqrt\<close> return the exact result
  rounded this way.
\<close>

definition fl :: "real \<Rightarrow> fval" where
  "fl x =
     (if x = 0 then Fin 0
      else if 2 ^ 1024 \<le> mag x then Inf (0 < x)
      else Fin (sgn x * mag x))"

fun fmul :: "fval \<Rightarrow> fval \<Rightarrow> fval" where
  "fmul (Fin a) (Fin b) = fl (a * b)"
| "fmul (Fin a) (Inf t) = (if a = 0 then NaN else Inf (t = (0 < a)))"
| "fmul (Inf s) (Fin b) = (if b = 0 then NaN else Inf (s = (0 < b)))"
| "fmul (Inf s) (Inf t) = Inf (s = t)"
| "fmul NaN y = NaN"
| "fmul (Fin a) NaN = NaN"
| "fmul (Inf s) NaN = NaN"

fun fadd :: "fval \<Rightarrow> fval \<Rightarrow> fval" where
  "fadd (Fin a) (Fin b) = fl (a + b)"
| "fadd (Fin a) (Inf t) = Inf t"
| "fadd (Inf s) (Fin b) = Inf s"
| "fadd (Inf s) (Inf t) = (if s = t then Inf s else NaN)"
| "fadd NaN y = NaN"
| "fadd (Fin a) NaN = NaN"
| "fadd (Inf s) NaN = NaN"

text \<open>
  Python's \<^verbatim>\<open>a / b\<close> on floats raises \<^verbatim>\<open>ZeroDivisionError\<close> for a zero divisor,
  whatever the dividend; a quotient too large for a double is an infinity, not an error.
\<close>

fun fdiv :: "fval \<Rightarrow> fval \<Rightarrow> error + fval" where
  "fdiv (Fin a) (Fin b) = (if b = 0 then Inl ZeroDivisionError else Inr (fl (a / b)))"
| "fdiv (Inf s) (Fin b) = (if b = 0 then Inl ZeroDivisionError else Inr (Inf (s = (0 < b))))"
| "fdiv NaN (Fin b) = (if b = 0 then Inl ZeroDivisionError else Inr NaN)"
| "fdiv (Fin a) (Inf t) = Inr (Fin 0)"
| "fdiv (Inf s) (Inf t) = Inr NaN"
| "fdiv NaN (Inf t) = Inr NaN"
| "fdiv x NaN = Inr NaN"

text \<open>
  An \<^verbatim>\<open>int\<close> operand of a float operation is first converted to the nearest double;
  the conversion raises \<^verbatim>\<open>OverflowError\<close> for an integer beyond the doubles.
\<close>

definition float_of_int :: "nat \<Rightarrow> error + real" where
  "float_of_int n = (case fl (real n) of Fin x \<Rightarrow> Inr x | _ \<Rightarrow> Inl OverflowError)"

text \<open>
  The exponent \<^verbatim>\<open>1/3\<close> is itself a double, the one nearest to one third:
  \<^verbatim>\<open>6004799503160661 / 2**54\<close>, a little below one third.
\<close>

definition third :: real where
  "third = 6004799503160661 / 18014398509481984"

text \<open>
  Python's \<^verbatim>\<open>x ** y\<close> on floats is the C library's \<^verbatim>\<open>pow\<close>, which no standard
  requires to be correctly rounded; it is the argument \<open>pw\<close> below, read at a positive
  finite base only. \<^verbatim>\<open>x ** (1/3)\<close> is 0 for a zero, \<^verbatim>\<open>inf\<close> for an infinity of
  either sign and \<^verbatim>\<open>nan\<close> for \<^verbatim>\<open>nan\<close>; for a negative finite base Python 3
  returns a complex number.
\<close>

datatype pynum = PyFloat fval | PyComplex

definition pow_third :: "(real \<Rightarrow> real \<Rightarrow> real) \<Rightarrow> fval \<Rightarrow> pynum" where
  "pow_third pw v =
     (case v of
        Fin x \<Rightarrow>
          if 0 < x then PyFloat (Fin (pw x third))
          else if x = 0 then PyFloat (Fin 0)
          else PyComplex
      | Inf s \<Rightarrow> PyFloat (Inf True)
      | NaN \<Rightarrow> PyFloat NaN)"

text \<open>
  \<^verbatim>\<open>n ** y\<close> for an \<^verbatim>\<open>int\<close> \<open>n \<ge> 0\<close> and a float \<open>y > 0\<close>: the integer is
  converted, and the power of zero is zero.
\<close>

definition int_pow :: "(real \<Rightarrow> real \<Rightarrow> real) \<Rightarrow> nat \<Rightarrow> real \<Rightarrow> error + real" where
  "int_pow pw n y =
     and_then (float_of_int n) (\<lambda>x. Inr (if x = 0 then 0 else pw x y))"

text \<open>
  Two power functions for the examples: the exact power of real numbers, and the exact power
  rounded to the nearest double.
\<close>

definition real_pow :: "real \<Rightarrow> real \<Rightarrow> real" where
  "real_pow x y = x powr y"



subsection \<open>Parameters\<close>

text \<open>
  The dictionary every function of the homework notebook takes: the diameter \<open>D\<close>, the
  cylinder length \<open>L\<close> (without the caps), the reduced density \<open>rho_star\<close>, the seed and
  the particle count.
\<close>

record params =
  D :: real
  L :: real
  rho_star :: real
  seed :: nat
  N_particles :: nat

text \<open>
  \<^verbatim>\<open>example_params = dict(D=1, L=4, rho_star=0.3, seed=1, N_particles=100)\<close>; the float
  \<^verbatim>\<open>0.3\<close> is \<^verbatim>\<open>5404319552844595 / 2**54\<close>.
\<close>

definition example_params :: params where
  "example_params =
     \<lparr>D = 1, L = 4, rho_star = 5404319552844595 / 18014398509481984, seed = 1,
      N_particles = 100\<rparr>"

subsection \<open>Boxes and snapshots\<close>

type_synonym vec3 = "real \<times> real \<times> real"

text \<open>
  A GSD box is a 6-element array: three box lengths and three tilt factors.
\<close>

record box =
  Lx :: real
  Ly :: real
  Lz :: real
  xy :: real
  xz :: real
  yz :: real

definition box_of_list :: "real \<Rightarrow> real \<Rightarrow> real \<Rightarrow> box" where
  "box_of_list a b c = \<lparr>Lx = a, Ly = b, Lz = c, xy = 0, xz = 0, yz = 0\<rparr>"

definition cube :: "real \<Rightarrow> box" where
  "cube l = box_of_list l l l"

definition volume :: "box \<Rightarrow> real" where
  "volume b = Lx b * Ly b * Lz b"

record snapshot =
  particles_N :: nat
  particles_position :: "vec3 list"
  particles_orientation :: "real list"
  particles_types :: "string list"
  configuration_box :: box
  configuration_step :: nat

subsection \<open>Lattice initialisation\<close>

text \<open>
  \<^verbatim>\<open>numpy.linspace(start, stop, num, endpoint=False)\<close>: \<open>num\<close> samples
  \<open>start + i * step\<close> with \<open>step = (stop - start) / num\<close>.
\<close>

definition linspace :: "real \<Rightarrow> real \<Rightarrow> nat \<Rightarrow> real list" where
  "linspace start stop num =
     map (\<lambda>i. start + real i * ((stop - start) / real num)) [0..<num]"

text \<open>
  \<^verbatim>\<open>spacing = params['D'] * 1.1\<close>,
  \<^verbatim>\<open>K = math.ceil(params['N_particles']**(1/2))\<close>,
  \<^verbatim>\<open>L = K * spacing\<close>. The power is a float power, and \<^verbatim>\<open>math.ceil\<close> returns the
  least integer that is not below the float it is given.
\<close>

definition spacing :: "params \<Rightarrow> real" where
  "spacing p = D p * (11 / 10)"

definition K_2d :: "(real \<Rightarrow> real \<Rightarrow> real) \<Rightarrow> params \<Rightarrow> error + nat" where
  "K_2d pw p = and_then (int_pow pw (N_particles p) (1 / 2)) (\<lambda>f. Inr (nat \<lceil>f\<rceil>))"

definition lattice_L :: "nat \<Rightarrow> params \<Rightarrow> real" where
  "lattice_L k p = real k * spacing p"

text \<open>
  \<^verbatim>\<open>x = numpy.linspace(-L / 2, L / 2, K, endpoint=False)\<close>,
  \<^verbatim>\<open>position_2d = list(itertools.product(x, repeat=2))\<close>,
  \<^verbatim>\<open>position_2d = position_2d[0:params['N_particles']]\<close>.
\<close>

definition lattice_x :: "nat \<Rightarrow> params \<Rightarrow> real list" where
  "lattice_x k p = linspace (- lattice_L k p / 2) (lattice_L k p / 2) k"

definition position_2d :: "nat \<Rightarrow> params \<Rightarrow> (real \<times> real) list" where
  "position_2d k p = take (N_particles p) (List.product (lattice_x k p) (lattice_x k p))"

text \<open>
  \<^verbatim>\<open>snapshot.particles.position = numpy.zeros(shape=(N, 3))\<close> followed by
  \<^verbatim>\<open>snapshot.particles.position[:,0:2] = position_2d\<close>: numpy copies \<open>n\<close> rows into
  \<open>n\<close> rows, repeats a single row over all rows, and raises \<^verbatim>\<open>ValueError\<close> for any
  other shape (an empty list has shape \<open>(0,)\<close> and never fits).
\<close>

definition assign_xy :: "nat \<Rightarrow> (real \<times> real) list \<Rightarrow> error + vec3 list" where
  "assign_xy n rows =
     (if rows = [] then Inl ValueError
      else if length rows = n then Inr (map (\<lambda>(x, y). (x, y, 0)) rows)
      else if length rows = 1 then Inr (replicate n (fst (hd rows), snd (hd rows), 0))
      else Inl ValueError)"

text \<open>
  The function \<^verbatim>\<open>initialize(params)\<close> up to the snapshot it appends to
  \<^verbatim>\<open>lattice.gsd\<close>.
\<close>

definition initialize_snapshot ::
  "(real \<Rightarrow> real \<Rightarrow> real) \<Rightarrow> params \<Rightarrow> error + snapshot" where
  "initialize_snapshot pw p =
     and_then (K_2d pw p) (\<lambda>k.
     and_then (assign_xy (N_particles p) (position_2d k p)) (\<lambda>pos.
       Inr \<lparr>particles_N = N_particles p,
            particles_position = pos,
            particles_orientation = concat (replicate (N_particles p) [1, 0, 0, 0]),
            particles_types = [''spherocylinder''],
            configuration_box = box_of_list (lattice_L k p) (lattice_L k p) (2 * (L p + D p)),
            configuration_step = 0\<rparr>))"






subsection \<open>Particle shapes and overlaps under the periodic box\<close>










subsection \<open>Target boxes\<close>

text \<open>
  The hard sphere tutorial (\<^verbatim>\<open>05-Compressing-the-System\<close>):
  \<^verbatim>\<open>V_particle = 4/3 * math.pi * 0.5**3\<close>,
  \<^verbatim>\<open>initial_packing_fraction = sim.state.N_particles * V_particle / sim.state.box.volume\<close>,
  \<^verbatim>\<open>final_packing_fraction = 0.57\<close>.
\<close>

definition V_particle :: real where
  "V_particle = 4 / 3 * pi * (1 / 2) ^ 3"

definition packing_fraction :: "nat \<Rightarrow> real \<Rightarrow> real \<Rightarrow> real" where
  "packing_fraction n v box_volume = real n * v / box_volume"

definition final_packing_fraction :: real where
  "final_packing_fraction = 57 / 100"

text \<open>
  Modelled from the spec: the box's volume setter, which belongs to the engine. The spec's
  interface \<^verbatim>\<open>with_volume(Box, target_volume) -> Box\<close> is a shape-preserving rescale:
  every box length is multiplied by the cube root of the volume ratio.
\<close>

definition set_volume :: "box \<Rightarrow> real \<Rightarrow> box" where
  "set_volume b v =
     b\<lparr>Lx := Lx b * root 3 (v / volume b),
       Ly := Ly b * root 3 (v / volume b),
       Lz := Lz b * root 3 (v / volume b)\<rparr>"

text \<open>
  \<^verbatim>\<open>final_box = hoomd.Box.from_box(initial_box)\<close>,
  \<^verbatim>\<open>final_box.volume = sim.state.N_particles * V_particle / final_packing_fraction\<close>.
\<close>

definition tutorial_final_box :: "box \<Rightarrow> nat \<Rightarrow> box" where
  "tutorial_final_box initial_box n =
     set_volume initial_box (real n * V_particle / final_packing_fraction)"

text \<open>
  The spherocylinder drivers (\<^verbatim>\<open>compress(params)\<close> and the walk-through):
  \<^verbatim>\<open>rho_c = 2/(math.sqrt(2) + (params['L']/params['D'])*math.sqrt(3))\<close>,
  \<^verbatim>\<open>rho = rho_c * params['rho_star']\<close>,
  \<^verbatim>\<open>box_V = sim.state.N_particles / rho\<close>,
  \<^verbatim>\<open>box_L = box_V**(1/3)\<close>. The parameters are the floats that the dictionary holds,
  every operation rounds, each division raises for a zero divisor, and the particle count
  \<open>n\<close> is \<^verbatim>\<open>sim.state.N_particles\<close>, an \<^verbatim>\<open>int\<close>.
\<close>

definition rho_c :: "params \<Rightarrow> error + fval" where
  "rho_c p =
     and_then (fdiv (Fin (L p)) (Fin (D p))) (\<lambda>r.
       fdiv (Fin 2) (fadd (fl (sqrt 2)) (fmul r (fl (sqrt 3)))))"

definition rho :: "params \<Rightarrow> error + fval" where
  "rho p = and_then (rho_c p) (\<lambda>c. Inr (fmul c (Fin (rho_star p))))"

definition box_V :: "params \<Rightarrow> nat \<Rightarrow> error + fval" where
  "box_V p n =
     and_then (rho p) (\<lambda>r. and_then (float_of_int n) (\<lambda>x. fdiv (Fin x) r))"

definition box_L :: "(real \<Rightarrow> real \<Rightarrow> real) \<Rightarrow> params \<Rightarrow> nat \<Rightarrow> error + pynum" where
  "box_L pw p n = and_then (box_V p n) (\<lambda>v. Inr (pow_third pw v))"

text \<open>
  \<^verbatim>\<open>final_box = hoomd.Box.cube(box_L)\<close>. A cubic box of a positive finite float edge has
  that edge three times; what the library does with an edge that is zero, negative,
  infinite, \<^verbatim>\<open>nan\<close> or complex is its own business, so its answer \<open>on_degenerate\<close> is
  an argument.
\<close>

definition positive_float :: "fval \<Rightarrow> bool" where
  "positive_float v = (case v of Fin x \<Rightarrow> 0 < x | _ \<Rightarrow> False)"

definition valid_edge :: "pynum \<Rightarrow> bool" where
  "valid_edge l = (case l of PyFloat (Fin x) \<Rightarrow> 0 < x | _ \<Rightarrow> False)"

definition final_box ::
  "(real \<Rightarrow> real \<Rightarrow> real) \<Rightarrow> (pynum \<Rightarrow> error + box) \<Rightarrow> params \<Rightarrow> nat \<Rightarrow> error + box" where
  "final_box pw on_degenerate p n =
     and_then (box_L pw p n) (\<lambda>l.
       case l of
         PyFloat (Fin x) \<Rightarrow> if 0 < x then Inr (cube x) else on_degenerate l
       | _ \<Rightarrow> on_degenerate l)"

text \<open>
  The volume of the integrator's shape: a cylinder of length \<open>L\<close> and diameter \<open>D\<close> with
  two hemispherical caps.
\<close>

definition spherocylinder_volume :: "real \<Rightarrow> real \<Rightarrow> real" where
  "spherocylinder_volume diam len = pi * diam ^ 3 / 6 + pi * diam\<^sup>2 * len / 4"

subsection \<open>Triggers\<close>

text \<open>
  The tutorial's words: ``the \<^verbatim>\<open>Periodic\<close> trigger returns \<^verbatim>\<open>True\<close> every \<^verbatim>\<open>period\<close>
  steps'', ``\<^verbatim>\<open>Before\<close> returns \<^verbatim>\<open>True\<close> for all time steps \<^verbatim>\<open>t < value\<close> and the
  \<^verbatim>\<open>And\<close> trigger returns \<^verbatim>\<open>True\<close> when all of its child triggers also return
  \<^verbatim>\<open>True\<close>''.
\<close>

datatype trigger = Periodic nat | Before nat | And "trigger list"

fun fires :: "trigger \<Rightarrow> nat \<Rightarrow> bool" where
  "fires (Periodic period) t = (t mod period = 0)"
| "fires (Before v) t = (t < v)"
| "fires (And ts) t = list_all (\<lambda>tr. fires tr t) ts"

subsection \<open>Operations of a simulation\<close>

datatype shape = Sphere real | ConvexSpheropolyhedron "vec3 list" real

record integrator =
  int_seed :: nat
  int_shape :: shape

text \<open>
  \<^verbatim>\<open>mc = hoomd.hpmc.integrate.ConvexSpheropolyhedron(seed=params['seed'])\<close> with
  \<^verbatim>\<open>vertices=[[0,0,-params['L']/2], [0,0,params['L']/2]]\<close> and
  \<^verbatim>\<open>sweep_radius=params['D']/2\<close>.
\<close>

definition make_hard_spherocylinder_integrator :: "params \<Rightarrow> integrator" where
  "make_hard_spherocylinder_integrator p =
     \<lparr>int_seed = seed p,
      int_shape = ConvexSpheropolyhedron [(0, 0, - L p / 2), (0, 0, L p / 2)] (D p / 2)\<rparr>"

record quick_compress =
  qc_trigger :: trigger
  qc_seed :: nat
  target_box :: box

record move_size_tuner =
  moves :: "string list"
  tune_target :: real
  tune_trigger :: trigger
  max_translation_move :: "real option"
  max_rotation_move :: "real option"

record gsd_writer =
  filename :: string
  gsd_trigger :: trigger

record operations =
  op_integrator :: integrator
  updaters :: "quick_compress list"
  tuners :: "move_size_tuner list"
  writers :: "gsd_writer list"

subsection \<open>The engine and the simulation state\<close>

text \<open>
  What the notebooks call into and do not define is an argument of the model: the trial
  moves of one time step (seeded by the integrator's seed and the time step), the overlap
  count, the move size solver, the rescaling of the particle positions with the box, the
  scale factor a compression step draws from its seed, the library's answer to a box
  edge that is not a positive float, and the float power of the platform. The type \<open>'m\<close>
  is the integrator's internal state (its acceptance counters).
\<close>

record 'm engine =
  default_d :: real
  default_a :: real
  mc_init :: 'm
  trial_moves :: "integrator \<Rightarrow> nat \<Rightarrow> real \<Rightarrow> real \<Rightarrow> snapshot \<Rightarrow> 'm \<Rightarrow> (vec3 list \<times> real list) \<times> 'm"
  count_overlaps :: "integrator \<Rightarrow> snapshot \<Rightarrow> nat"
  scale_solver :: "move_size_tuner \<Rightarrow> real \<Rightarrow> real \<Rightarrow> 'm \<Rightarrow> (real \<times> real) \<times> 'm"
  scale_positions :: "box \<Rightarrow> box \<Rightarrow> vec3 list \<Rightarrow> vec3 list"
  draw_scale :: "nat \<Rightarrow> nat \<Rightarrow> real"
  cube_degenerate :: "pynum \<Rightarrow> error + box"
  float_pow :: "real \<Rightarrow> real \<Rightarrow> real"

record 'm sim =
  timestep :: nat
  snap :: snapshot
  move_d :: real
  move_a :: real
  mc_internal :: 'm

definition state_box :: "'m sim \<Rightarrow> box" where
  "state_box s = configuration_box (snap s)"

subsection \<open>The compression updater\<close>

text \<open>
  Modelled from the spec: the \<^verbatim>\<open>QuickCompress\<close> updater is the engine's and not in the
  notebooks. Section 4.1 of the spec: the candidate box lies between the current box and the
  target along an interpolation of the box volume (here geometric, by the drawn scale
  factor), is never larger than the current box when compressing and never passes the
  target; expansion is symmetric.
\<close>

definition candidate_volume :: "real \<Rightarrow> real \<Rightarrow> real \<Rightarrow> real" where
  "candidate_volume sc v vt =
     (if vt \<le> v then max vt (min v (sc * v)) else min vt (max v (v / sc)))"

text \<open>
  Modelled from the spec: one trigger tick of the controller. With overlaps left, the tick
  is skipped (box unchanged); otherwise the rescale is applied unconditionally, the box
  becoming the target box itself once the candidate volume reaches the target volume.
\<close>

definition quick_compress_step ::
  "'m engine \<Rightarrow> integrator \<Rightarrow> quick_compress \<Rightarrow> 'm sim \<Rightarrow> 'm sim" where
  "quick_compress_step eng mc qc s =
     (if count_overlaps eng mc (snap s) \<noteq> 0 then s
      else if state_box s = target_box qc then s
      else
        let v = candidate_volume (draw_scale eng (qc_seed qc) (timestep s))
                  (volume (state_box s)) (volume (target_box qc));
            b = (if v = volume (target_box qc) then target_box qc
                 else set_volume (state_box s) v)
        in s\<lparr>snap := (snap s)\<lparr>configuration_box := b,
                 particles_position :=
                   scale_positions eng (state_box s) b (particles_position (snap s))\<rparr>\<rparr>)"

text \<open>
  Modelled from the spec: the property \<^verbatim>\<open>compress.complete\<close> that the drivers read, the
  spec's completion predicate
  \<^verbatim>\<open>complete = (current box == target box) AND (overlap count == 0)\<close>, computed from the
  current state at every read.
\<close>

definition compress_complete :: "'m engine \<Rightarrow> integrator \<Rightarrow> quick_compress \<Rightarrow> 'm sim \<Rightarrow> bool" where
  "compress_complete eng mc qc s =
     (state_box s = target_box qc \<and> count_overlaps eng mc (snap s) = 0)"

subsection \<open>Running a simulation\<close>

text \<open>
  One time step, as the tutorial describes a simulation: the integrator ``operates on the
  system state on every time step'', and an updater or tuner is applied ``on time steps
  where the trigger returns \<^verbatim>\<open>True\<close>''. The tuners and then the updaters whose trigger
  fires at the current step are applied, the integrator makes its trial moves, and the step
  counter advances. A tuner changes only the move sizes it lists (and the integrator's
  counters); the trial moves change only the particles.
\<close>

definition apply_tuner :: "'m engine \<Rightarrow> move_size_tuner \<Rightarrow> 'm sim \<Rightarrow> 'm sim" where
  "apply_tuner eng tn s =
     (if fires (tune_trigger tn) (timestep s) then
        (case scale_solver eng tn (move_d s) (move_a s) (mc_internal s) of
           ((d', a'), m') \<Rightarrow>
             s\<lparr>move_d := (if ''d'' \<in> set (moves tn) then d' else move_d s),
               move_a := (if ''a'' \<in> set (moves tn) then a' else move_a s),
               mc_internal := m'\<rparr>)
      else s)"

definition apply_updater ::
  "'m engine \<Rightarrow> integrator \<Rightarrow> quick_compress \<Rightarrow> 'm sim \<Rightarrow> 'm sim" where
  "apply_updater eng mc qc s =
     (if fires (qc_trigger qc) (timestep s) then quick_compress_step eng mc qc s else s)"

definition integrate :: "'m engine \<Rightarrow> integrator \<Rightarrow> 'm sim \<Rightarrow> 'm sim" where
  "integrate eng mc s =
     (case trial_moves eng mc (timestep s) (move_d s) (move_a s) (snap s) (mc_internal s) of
        ((pos, ori), m') \<Rightarrow>
          s\<lparr>snap := (snap s)\<lparr>particles_position := pos, particles_orientation := ori\<rparr>,
            mc_internal := m'\<rparr>)"

definition sim_step :: "'m engine \<Rightarrow> operations \<Rightarrow> 'm sim \<Rightarrow> 'm sim" where
  "sim_step eng ops s =
     (let s1 = fold (apply_tuner eng) (tuners ops) s;
          s2 = fold (apply_updater eng (op_integrator ops)) (updaters ops) s1;
          s3 = integrate eng (op_integrator ops) s2
      in s3\<lparr>timestep := timestep s3 + 1\<rparr>)"

text \<open>\<^verbatim>\<open>sim.run(n)\<close>: \<open>n\<close> time steps.\<close>

primrec run_steps :: "'m engine \<Rightarrow> operations \<Rightarrow> nat \<Rightarrow> 'm sim \<Rightarrow> 'm sim" where
  "run_steps eng ops 0 s = s"
| "run_steps eng ops (Suc n) s = sim_step eng ops (run_steps eng ops n s)"

subsection \<open>GSD files\<close>

type_synonym files = "string \<rightharpoonup> snapshot list"

text \<open>
  \<^verbatim>\<open>sim.create_state_from_gsd(filename=...)\<close> reads the last frame of the file; the time
  step of the simulation is the frame's step. \<^verbatim>\<open>hoomd.write.GSD.write(state, filename)\<close>
  writes a file of one frame.
\<close>

definition create_state_from_gsd :: "'m engine \<Rightarrow> files \<Rightarrow> string \<Rightarrow> error + 'm sim" where
  "create_state_from_gsd eng fs name =
     (case fs name of
        None \<Rightarrow> Inl (ReadError name)
      | Some frames \<Rightarrow>
          if frames = [] then Inl (ReadError name)
          else Inr \<lparr>timestep = configuration_step (last frames), snap = last frames,
                    move_d = default_d eng, move_a = default_a eng,
                    mc_internal = mc_init eng\<rparr>)"

definition frame_of :: "'m sim \<Rightarrow> snapshot" where
  "frame_of s = (snap s)\<lparr>configuration_step := timestep s\<rparr>"

definition gsd_write :: "'m sim \<Rightarrow> string \<Rightarrow> files \<Rightarrow> files" where
  "gsd_write s name fs = fs(name \<mapsto> [frame_of s])"

text \<open>
  A GSD writer opened with \<^verbatim>\<open>mode='wb'\<close> replaces the file and appends a frame after every
  step at which its trigger fires.
\<close>

definition written_frames ::
  "'m engine \<Rightarrow> operations \<Rightarrow> trigger \<Rightarrow> nat \<Rightarrow> 'm sim \<Rightarrow> snapshot list" where
  "written_frames eng ops tr n s =
     map (\<lambda>k. frame_of (run_steps eng ops k s))
       (filter (\<lambda>k. fires tr (timestep s + k)) [1..<Suc n])"

subsection \<open>The compression drivers\<close>

lemma timestep_apply_tuner: "timestep (apply_tuner eng tn s) = timestep s"
  by (simp add: apply_tuner_def split: prod.splits)

lemma timestep_fold_tuner: "timestep (fold (apply_tuner eng) tns s) = timestep s"
  by (induction tns arbitrary: s) (simp_all add: timestep_apply_tuner)

lemma timestep_quick_compress_step: "timestep (quick_compress_step eng mc qc s) = timestep s"
  by (simp add: quick_compress_step_def Let_def)

lemma timestep_apply_updater: "timestep (apply_updater eng mc qc s) = timestep s"
  by (simp add: apply_updater_def timestep_quick_compress_step)

lemma timestep_fold_updater: "timestep (fold (apply_updater eng mc) qcs s) = timestep s"
  by (induction qcs arbitrary: s) (simp_all add: timestep_apply_updater)

lemma timestep_integrate: "timestep (integrate eng mc s) = timestep s"
  by (simp add: integrate_def split: prod.splits)

lemma timestep_sim_step: "timestep (sim_step eng ops s) = Suc (timestep s)"
  by (simp add: sim_step_def Let_def timestep_integrate timestep_fold_updater
      timestep_fold_tuner)

lemma timestep_run_steps: "timestep (run_steps eng ops n s) = timestep s + n"
  by (induction n) (simp_all add: timestep_sim_step)

text \<open>
  \<^verbatim>\<open>while not compress.complete and sim.timestep < budget: sim.run(1000)\<close> with the
  budget \<^verbatim>\<open>5e4\<close> (spherocylinders) or \<^verbatim>\<open>1e6\<close> (hard spheres).
\<close>

function compress_loop ::
  "'m engine \<Rightarrow> operations \<Rightarrow> quick_compress \<Rightarrow> nat \<Rightarrow> 'm sim \<Rightarrow> 'm sim" where
  "compress_loop eng ops qc budget s =
     (if \<not> compress_complete eng (op_integrator ops) qc s \<and> timestep s < budget
      then compress_loop eng ops qc budget (run_steps eng ops 1000 s)
      else s)"
  by pat_completeness auto
termination
  by (relation "measure (\<lambda>(eng, ops, qc, budget, s). budget - timestep s)")
     (auto simp: timestep_run_steps)

declare compress_loop.simps [simp del]

text \<open>
  The tuner of the compression cells:
  \<^verbatim>\<open>MoveSize.scale_solver(moves=['a', 'd'], target=0.2, trigger=Periodic(10),
  max_translation_move=0.2, max_rotation_move=0.2)\<close>.
\<close>

definition compress_tuner :: move_size_tuner where
  "compress_tuner =
     \<lparr>moves = [''a'', ''d''], tune_target = 2 / 10, tune_trigger = Periodic 10,
      max_translation_move = Some (2 / 10), max_rotation_move = Some (2 / 10)\<rparr>"

text \<open>
  \<^verbatim>\<open>QuickCompress(trigger=hoomd.trigger.Periodic(10), seed=params['seed'],
  target_box = final_box)\<close>.
\<close>

definition compress_updater :: "params \<Rightarrow> box \<Rightarrow> quick_compress" where
  "compress_updater p fb = \<lparr>qc_trigger = Periodic 10, qc_seed = seed p, target_box = fb\<rparr>"

definition compress_ops :: "params \<Rightarrow> box \<Rightarrow> operations" where
  "compress_ops p fb =
     \<lparr>op_integrator = make_hard_spherocylinder_integrator p,
      updaters = [compress_updater p fb], tuners = [compress_tuner], writers = []\<rparr>"

text \<open>The function \<^verbatim>\<open>compress(params)\<close> of the homework notebook.\<close>

definition compress :: "'m engine \<Rightarrow> params \<Rightarrow> files \<Rightarrow> error + files" where
  "compress eng p fs =
     and_then (create_state_from_gsd eng fs ''random.gsd'') (\<lambda>s0.
     and_then (final_box (float_pow eng) (cube_degenerate eng) p (particles_N (snap s0))) (\<lambda>fb.
       let s = compress_loop eng (compress_ops p fb) (compress_updater p fb) 50000 s0
       in if \<not> compress_complete eng (make_hard_spherocylinder_integrator p) (compress_updater p fb) s
          then Inl (RuntimeError ''Compression failed to complete'')
          else Inr (gsd_write s ''compressed.gsd'' fs)))"

text \<open>
  The compression cell of the spherocylinder walk-through (\<^verbatim>\<open>src/unnamed/part_000\<close>):
  the notebook's globals \<^verbatim>\<open>L=5\<close>, \<^verbatim>\<open>D=1\<close>, \<^verbatim>\<open>N_particles = 50\<close>,
  \<^verbatim>\<open>rho_star = 0.53\<close> (the float \<^verbatim>\<open>2386907802506363 / 2**52\<close>), the integrator seed
  18, the updater seed 1; the loop is followed at once by
  \<^verbatim>\<open>hoomd.write.GSD.write(state=sim.state, filename='compressed.gsd')\<close>.
\<close>

definition walkthrough_params :: params where
  "walkthrough_params =
     \<lparr>D = 1, L = 5, rho_star = 2386907802506363 / 4503599627370496, seed = 1,
      N_particles = 50\<rparr>"

definition walkthrough_integrator :: "params \<Rightarrow> integrator" where
  "walkthrough_integrator p =
     \<lparr>int_seed = 18,
      int_shape = ConvexSpheropolyhedron [(0, 0, - L p / 2), (0, 0, L p / 2)] (D p / 2)\<rparr>"

definition walkthrough_updater :: "box \<Rightarrow> quick_compress" where
  "walkthrough_updater fb = \<lparr>qc_trigger = Periodic 10, qc_seed = 1, target_box = fb\<rparr>"

definition walkthrough_ops :: "params \<Rightarrow> box \<Rightarrow> operations" where
  "walkthrough_ops p fb =
     \<lparr>op_integrator = walkthrough_integrator p,
      updaters = [walkthrough_updater fb], tuners = [compress_tuner], writers = []\<rparr>"

definition walkthrough_compress :: "'m engine \<Rightarrow> params \<Rightarrow> files \<Rightarrow> error + files" where
  "walkthrough_compress eng p fs =
     and_then (create_state_from_gsd eng fs ''random.gsd'') (\<lambda>s0.
     and_then (final_box (float_pow eng) (cube_degenerate eng) p (particles_N (snap s0))) (\<lambda>fb.
       let s = compress_loop eng (walkthrough_ops p fb) (walkthrough_updater fb) 50000 s0
       in Inr (gsd_write s ''compressed.gsd'' fs)))"

text \<open>
  The cells of the hard sphere tutorial (\<^verbatim>\<open>05-Compressing-the-System\<close>):
  \<^verbatim>\<open>mc = hoomd.hpmc.integrate.Sphere(seed=10)\<close> with diameter 1, the updater with
  \<^verbatim>\<open>seed=10\<close>, the tuner on \<^verbatim>\<open>moves=['d']\<close>, the budget \<^verbatim>\<open>1e6\<close>, the check
  \<^verbatim>\<open>if not compress.complete: raise RuntimeError("Compression failed to complete")\<close>
  and, in a later cell, the write of \<^verbatim>\<open>compressed.gsd\<close>.
\<close>

definition tutorial_integrator :: integrator where
  "tutorial_integrator = \<lparr>int_seed = 10, int_shape = Sphere 1\<rparr>"

definition tutorial_tuner :: move_size_tuner where
  "tutorial_tuner =
     \<lparr>moves = [''d''], tune_target = 2 / 10, tune_trigger = Periodic 10,
      max_translation_move = Some (2 / 10), max_rotation_move = None\<rparr>"

definition tutorial_updater :: "box \<Rightarrow> quick_compress" where
  "tutorial_updater fb = \<lparr>qc_trigger = Periodic 10, qc_seed = 10, target_box = fb\<rparr>"

definition tutorial_ops :: "box \<Rightarrow> operations" where
  "tutorial_ops fb =
     \<lparr>op_integrator = tutorial_integrator,
      updaters = [tutorial_updater fb], tuners = [tutorial_tuner], writers = []\<rparr>"

definition tutorial_compress :: "'m engine \<Rightarrow> files \<Rightarrow> error + files" where
  "tutorial_compress eng fs =
     and_then (create_state_from_gsd eng fs ''random.gsd'') (\<lambda>s0.
       let fb = tutorial_final_box (state_box s0) (particles_N (snap s0));
           s = compress_loop eng (tutorial_ops fb) (tutorial_updater fb) 1000000 s0
       in if \<not> compress_complete eng tutorial_integrator (tutorial_updater fb) s
          then Inl (RuntimeError ''Compression failed to complete'')
          else Inr (gsd_write s ''compressed.gsd'' fs))"

subsection \<open>The other stages and the whole workflow\<close>

definition initialize :: "'m engine \<Rightarrow> params \<Rightarrow> files \<Rightarrow> error + files" where
  "initialize eng p fs =
     and_then (initialize_snapshot (float_pow eng) p)
       (\<lambda>s. Inr (fs(''lattice.gsd'' \<mapsto> [s])))"

text \<open>\<^verbatim>\<open>randomize(params)\<close>: \<^verbatim>\<open>sim.run(10e3)\<close> with the integrator alone.\<close>

definition randomize_ops :: "params \<Rightarrow> operations" where
  "randomize_ops p =
     \<lparr>op_integrator = make_hard_spherocylinder_integrator p,
      updaters = [], tuners = [], writers = []\<rparr>"

definition randomize :: "'m engine \<Rightarrow> params \<Rightarrow> files \<Rightarrow> error + files" where
  "randomize eng p fs =
     and_then (create_state_from_gsd eng fs ''lattice.gsd'') (\<lambda>s0.
       Inr (gsd_write (run_steps eng (randomize_ops p) 10000 s0) ''random.gsd'' fs))"

text \<open>
  \<^verbatim>\<open>equilibrate(params)\<close>: the trajectory writer on \<^verbatim>\<open>Periodic(1000)\<close>, the tuner on
  \<^verbatim>\<open>And([Periodic(100), Before(sim.timestep + 5000)])\<close> with the time step read when the
  tuner is built, and \<^verbatim>\<open>sim.run(200e3)\<close>. The table writer only prints.
\<close>

definition equilibrate_trigger :: "nat \<Rightarrow> trigger" where
  "equilibrate_trigger t0 = And [Periodic 100, Before (t0 + 5000)]"

definition equilibrate_tuner :: "nat \<Rightarrow> move_size_tuner" where
  "equilibrate_tuner t0 =
     \<lparr>moves = [''a'', ''d''], tune_target = 2 / 10, tune_trigger = equilibrate_trigger t0,
      max_translation_move = None, max_rotation_move = None\<rparr>"

definition equilibrate_ops :: "integrator \<Rightarrow> nat \<Rightarrow> operations" where
  "equilibrate_ops mc t0 =
     \<lparr>op_integrator = mc, updaters = [], tuners = [equilibrate_tuner t0],
      writers = [\<lparr>filename = ''trajectory.gsd'', gsd_trigger = Periodic 1000\<rparr>]\<rparr>"

definition equilibrate :: "'m engine \<Rightarrow> params \<Rightarrow> files \<Rightarrow> error + files" where
  "equilibrate eng p fs =
     and_then (create_state_from_gsd eng fs ''compressed.gsd'') (\<lambda>s0.
       Inr (fs(''trajectory.gsd'' \<mapsto>
         written_frames eng
           (equilibrate_ops (make_hard_spherocylinder_integrator p) (timestep s0))
           (Periodic 1000) 200000 s0)))"

definition run_simulation :: "'m engine \<Rightarrow> params \<Rightarrow> files \<Rightarrow> error + files" where
  "run_simulation eng p fs =
     and_then (initialize eng p fs) (\<lambda>f1.
     and_then (randomize eng p f1) (\<lambda>f2.
     and_then (compress eng p f2) (\<lambda>f3.
       equilibrate eng p f3)))"

text \<open>The four files a run of the workflow produces.\<close>

definition produced :: "error + files \<Rightarrow> error + (snapshot list option) list" where
  "produced r =
     (case r of
        Inl e \<Rightarrow> Inl e
      | Inr fs \<Rightarrow>
          Inr [fs ''lattice.gsd'', fs ''random.gsd'', fs ''compressed.gsd'',
               fs ''trajectory.gsd''])"

subsection \<open>An engine and a state for the examples\<close>

text \<open>
  A stand-in for the engine: its particles never move, its solver leaves the move sizes as
  they are, and its overlap count is always \<open>k\<close>. With \<open>k = 0\<close> nothing overlaps; with
  \<open>k > 0\<close> the overlaps never go away, as for a target denser than close packing. Its
  float power is the exact power.
\<close>

definition frozen_engine :: "nat \<Rightarrow> unit engine" where
  "frozen_engine k =
     \<lparr>default_d = 1 / 10, default_a = 1 / 10, mc_init = (),
      trial_moves = (\<lambda>mc t d a sn m. ((particles_position sn, particles_orientation sn), m)),
      count_overlaps = (\<lambda>mc sn. k),
      scale_solver = (\<lambda>tn d a m. ((d, a), m)),
      scale_positions = (\<lambda>b b' ps. ps),
      draw_scale = (\<lambda>sd t. 99 / 100),
      cube_degenerate = (\<lambda>l. Inl ValueError),
      float_pow = real_pow\<rparr>"

text \<open>
  Two engines agree at a seed when they differ at most in what they draw for other seeds:
  the trial moves of an integrator built with this seed and the scale factors drawn from
  this seed are the same, and so is everything that involves no random number.
\<close>

definition same_at_seed :: "nat \<Rightarrow> 'm engine \<Rightarrow> 'm engine \<Rightarrow> bool" where
  "same_at_seed sd e1 e2 =
     (default_d e1 = default_d e2 \<and> default_a e1 = default_a e2 \<and> mc_init e1 = mc_init e2
      \<and> (\<forall>mc. int_seed mc = sd \<longrightarrow> trial_moves e1 mc = trial_moves e2 mc)
      \<and> count_overlaps e1 = count_overlaps e2
      \<and> scale_solver e1 = scale_solver e2
      \<and> scale_positions e1 = scale_positions e2
      \<and> draw_scale e1 sd = draw_scale e2 sd
      \<and> cube_degenerate e1 = cube_degenerate e2
      \<and> float_pow e1 = float_pow e2)"

text \<open>
  An engine that is \<open>frozen_engine 0\<close> at the seed 1 and, at every other seed, loses
  the particles in a trial move and halves the box in a compression step.
\<close>

definition reseeded_engine :: "unit engine" where
  "reseeded_engine =
     (frozen_engine 0)
       \<lparr>trial_moves :=
          (\<lambda>mc t d a sn m.
             if int_seed mc = 1 then ((particles_position sn, particles_orientation sn), m)
             else (([], []), m)),
        draw_scale := (\<lambda>sd t. if sd = 1 then 99 / 100 else 1 / 2)\<rparr>"

text \<open>
  The engine \<open>frozen_engine 1\<close> with a library that checks no edge: whatever it is handed,
  it builds the unit cube.
\<close>

definition lenient_engine :: "unit engine" where
  "lenient_engine = (frozen_engine 1)\<lparr>cube_degenerate := (\<lambda>l. Inr (cube 1))\<rparr>"

definition one_particle :: snapshot where
  "one_particle =
     \<lparr>particles_N = 1, particles_position = [(0, 0, 0)],
      particles_orientation = [1, 0, 0, 0], particles_types = [''spherocylinder''],
      configuration_box = cube 10, configuration_step = 0\<rparr>"

definition one_particle_sim :: "unit sim" where
  "one_particle_sim =
     \<lparr>timestep = 0, snap = one_particle, move_d = 1 / 10, move_a = 1 / 10,
      mc_internal = ()\<rparr>"

definition random_files :: files where
  "random_files = [''random.gsd'' \<mapsto> [one_particle]]"

subsection \<open>The stages as functions of the state they read\<close>

text \<open>
  Each stage builds a fresh simulation from the last frame of one file. The three functions
  below are the stages \<^verbatim>\<open>randomize\<close>, \<^verbatim>\<open>compress\<close> and \<^verbatim>\<open>equilibrate\<close> seen from
  the state that the stage before them wrote.
\<close>

definition stage_randomize :: "'m engine \<Rightarrow> params \<Rightarrow> snapshot \<Rightarrow> 'm sim" where
  "stage_randomize eng p s =
     run_steps eng (randomize_ops p) 10000
       \<lparr>timestep = configuration_step s, snap = s, move_d = default_d eng,
        move_a = default_a eng, mc_internal = mc_init eng\<rparr>"

definition stage_compress :: "'m engine \<Rightarrow> params \<Rightarrow> 'm sim \<Rightarrow> error + 'm sim" where
  "stage_compress eng p r =
     (let s0 = \<lparr>timestep = timestep r, snap = frame_of r, move_d = default_d eng,
                move_a = default_a eng, mc_internal = mc_init eng\<rparr>
      in and_then (final_box (float_pow eng) (cube_degenerate eng) p (particles_N (snap s0))) (\<lambda>fb.
       let s = compress_loop eng (compress_ops p fb) (compress_updater p fb) 50000 s0
       in if \<not> compress_complete eng (make_hard_spherocylinder_integrator p) (compress_updater p fb) s
          then Inl (RuntimeError ''Compression failed to complete'')
          else Inr s))"

definition stage_equilibrate :: "'m engine \<Rightarrow> params \<Rightarrow> 'm sim \<Rightarrow> snapshot list" where
  "stage_equilibrate eng p c =
     (let s0 = \<lparr>timestep = timestep c, snap = frame_of c, move_d = default_d eng,
                move_a = default_a eng, mc_internal = mc_init eng\<rparr>
      in written_frames eng
           (equilibrate_ops (make_hard_spherocylinder_integrator p) (timestep s0))
           (Periodic 1000) 200000 s0)"

text \<open>
  Parameter sets for the examples: a reduced density of 5, far above close packing; a
  reduced density of 0; a reduced density of \<^verbatim>\<open>-0.3\<close>; the smallest positive float
  \<^verbatim>\<open>5e-324\<close> as the reduced density; two particles of diameter 0; a particle count
  of \<^verbatim>\<open>67108865**2 + 1\<close>; and particles of diameter 2 and length 8 at the reduced
  density \<^verbatim>\<open>0.3\<close>.
\<close>

definition dense_params :: params where
  "dense_params = \<lparr>D = 1, L = 4, rho_star = 5, seed = 1, N_particles = 100\<rparr>"

definition zero_density_params :: params where
  "zero_density_params = \<lparr>D = 1, L = 4, rho_star = 0, seed = 1, N_particles = 100\<rparr>"

definition negative_density_params :: params where
  "negative_density_params =
     \<lparr>D = 1, L = 4, rho_star = - (5404319552844595 / 18014398509481984), seed = 1,
      N_particles = 100\<rparr>"

definition tiny_density_params :: params where
  "tiny_density_params = \<lparr>D = 1, L = 4, rho_star = 1 / 2 ^ 1074, seed = 1, N_particles = 100\<rparr>"



definition wide_params :: params where
  "wide_params =
     \<lparr>D = 2, L = 8, rho_star = 5404319552844595 / 18014398509481984, seed = 1,
      N_particles = 100\<rparr>"

section \<open>Proofs\<close>

subsection \<open>Rounding to the nearest double\<close>

lemma rne_ge: "of_int n \<le> x \<Longrightarrow> n \<le> rne x"
proof -
  assume h: "of_int n \<le> x"
  then have f: "n \<le> \<lfloor>x\<rfloor>" by (simp add: le_floor_iff)
  then show ?thesis unfolding rne_def by auto
qed

lemma rne_le: "x \<le> of_int n \<Longrightarrow> rne x \<le> n"
proof -
  assume h: "x \<le> of_int n"
  have f: "\<lfloor>x\<rfloor> \<le> n" using h by (simp add: floor_le_iff)
  show ?thesis
  proof (cases "\<lfloor>x\<rfloor> = n")
    case True
    then have "x = of_int n" using h by (metis of_int_floor_le order_antisym)
    then show ?thesis by (simp add: rne_def)
  next
    case False
    with f have "\<lfloor>x\<rfloor> + 1 \<le> n" by simp
    then show ?thesis unfolding rne_def by auto
  qed
qed


lemma rne_small: "0 \<le> x \<Longrightarrow> x \<le> 1 / 2 \<Longrightarrow> rne x = 0"
proof -
  assume h: "0 \<le> x" "x \<le> 1 / 2"
  then have "\<lfloor>x\<rfloor> = 0" by (simp add: floor_eq_iff)
  then show ?thesis using h by (simp add: rne_def)
qed

lemma rne_near: "\<bar>of_int (rne x) - x\<bar> \<le> 1 / 2"
proof -
  have "of_int \<lfloor>x\<rfloor> \<le> x" "x < of_int \<lfloor>x\<rfloor> + 1" by linarith+
  then show ?thesis unfolding rne_def by (auto simp: abs_le_iff)
qed


lemma quantum_pos: "0 < quantum x"
  by (simp add: quantum_def)

lemma floor_log2_le: "0 < x \<Longrightarrow> 2 powr of_int \<lfloor>log 2 x\<rfloor> \<le> x"
proof -
  assume x: "0 < x"
  have "of_int \<lfloor>log 2 x\<rfloor> \<le> log 2 x" by simp
  then have "2 powr of_int \<lfloor>log 2 x\<rfloor> \<le> 2 powr log 2 x" by (rule powr_mono) simp
  then show ?thesis using x by simp
qed

lemma floor_log2_ge: "0 < x \<Longrightarrow> 2 powr of_int a \<le> x \<Longrightarrow> a \<le> \<lfloor>log 2 x\<rfloor>"
proof -
  assume x: "0 < x" and a: "2 powr of_int a \<le> x"
  have "log 2 (2 powr of_int a) \<le> log 2 x" using a x by (simp del: log_powr_cancel)
  then have "of_int a \<le> log 2 x" by simp
  then show ?thesis by (simp add: le_floor_iff)
qed

lemma floor_log2_le_upper: "0 < x \<Longrightarrow> x \<le> 2 powr of_int b \<Longrightarrow> \<lfloor>log 2 x\<rfloor> \<le> b"
proof -
  assume x: "0 < x" and b: "x \<le> 2 powr of_int b"
  have "log 2 x \<le> log 2 (2 powr of_int b)" using b x by (simp del: log_powr_cancel)
  then have "log 2 x \<le> of_int b" by simp
  then show ?thesis by (simp add: floor_le_iff)
qed


lemma two_powr_int: "0 \<le> k \<Longrightarrow> (2::real) powr of_int k = of_int (2 ^ nat k)"
proof -
  assume "0 \<le> k"
  then have "(2::real) powr of_int k = 2 powr real (nat k)" by simp
  also have "\<dots> = 2 ^ nat k" by (rule powr_realpow) simp
  finally show ?thesis by simp
qed

lemma two_powr_1023: "(2::real) powr of_int 1023 < 2 ^ 1024"
proof -
  have "(2::real) powr of_int 1023 = of_int (2 ^ nat 1023)" by (rule two_powr_int) simp
  also have "\<dots> = 2 ^ 1023" by simp
  also have "\<dots> < (2::real) ^ 1024" by (rule power_strict_increasing) simp_all
  finally show ?thesis .
qed

lemma two_powr_nat: "(2::real) powr of_int (int k) = 2 ^ k"
  by (simp add: powr_realpow)

lemma two_powr_neg_nat: "(2::real) powr of_int (- int k) = 1 / 2 ^ k"
  by (simp add: powr_minus_divide powr_realpow)

lemma nat_le_two_powr: "n \<le> 2 ^ k \<Longrightarrow> real n \<le> 2 powr of_int (int k)"
proof -
  assume "n \<le> 2 ^ k"
  then have "real n \<le> real (2 ^ k)" by (simp only: of_nat_le_iff)
  then show ?thesis by (simp add: powr_realpow)
qed

lemma mag_upper:
  assumes x: "0 < x" and b: "x \<le> 2 powr of_int b" and lo: "- 1022 \<le> b"
  shows "mag x \<le> 2 powr of_int b"
proof -
  define kk where "kk = max \<lfloor>log 2 \<bar>x\<bar>\<rfloor> (- 1022)"
  have q: "quantum x = 2 powr of_int (kk - 52)" by (simp add: quantum_def kk_def)
  have "\<lfloor>log 2 x\<rfloor> \<le> b" using x b by (rule floor_log2_le_upper)
  then have kkb: "kk \<le> b" using lo x by (simp add: kk_def)
  then have e: "0 \<le> b - kk + 52" by simp
  have "x / quantum x \<le> 2 powr of_int b / 2 powr of_int (kk - 52)"
    using b by (simp add: q divide_right_mono)
  also have "\<dots> = 2 powr of_int (b - kk + 52)"
    by (simp add: powr_diff [symmetric] algebra_simps)
  also have "\<dots> = of_int (2 ^ nat (b - kk + 52))" using e by (rule two_powr_int)
  finally have "rne (x / quantum x) \<le> 2 ^ nat (b - kk + 52)" by (rule rne_le)
  then have "real_of_int (rne (x / quantum x)) \<le> of_int (2 ^ nat (b - kk + 52))"
    by (simp only: of_int_le_iff)
  also have "\<dots> = 2 powr of_int (b - kk + 52)" using e by (rule two_powr_int [symmetric])
  finally have "real_of_int (rne (x / quantum x)) * quantum x
      \<le> 2 powr of_int (b - kk + 52) * quantum x"
    using quantum_pos [of x] by (simp add: mult_right_mono)
  also have "\<dots> = 2 powr of_int b"
    by (simp add: q powr_add [symmetric])
  finally show ?thesis using x by (simp add: mag_def)
qed

lemma mag_nonneg: "0 \<le> mag x"
proof -
  have "0 \<le> \<bar>x\<bar> / quantum x" using quantum_pos [of x] by simp
  then have "of_int 0 \<le> \<bar>x\<bar> / quantum x" by simp
  then have "0 \<le> rne (\<bar>x\<bar> / quantum x)" by (rule rne_ge)
  then show ?thesis using quantum_pos [of x] by (simp add: mag_def)
qed

lemma quantum_normal:
  assumes x: "0 < x" and a: "2 powr of_int a \<le> x" and lo: "- 1022 \<le> a"
  shows "quantum x = 2 powr of_int (\<lfloor>log 2 x\<rfloor> - 52)"
proof -
  have "a \<le> \<lfloor>log 2 x\<rfloor>" using x a by (rule floor_log2_ge)
  then have "max \<lfloor>log 2 \<bar>x\<bar>\<rfloor> (- 1022) = \<lfloor>log 2 x\<rfloor>" using lo x by simp
  then show ?thesis by (simp only: quantum_def)
qed

lemma mag_lower:
  assumes x: "0 < x" and a: "2 powr of_int a \<le> x" and lo: "- 1022 \<le> a"
  shows "2 powr of_int a \<le> mag x"
proof -
  define k where "k = \<lfloor>log 2 x\<rfloor>"
  have ak: "a \<le> k" unfolding k_def using x a by (rule floor_log2_ge)
  have q: "quantum x = 2 powr of_int (k - 52)"
    unfolding k_def using x a lo by (rule quantum_normal)
  have kx: "2 powr of_int k \<le> x" unfolding k_def using x by (rule floor_log2_le)
  have "of_int (2 ^ nat 52) = (2::real) powr of_int 52" by (rule two_powr_int [symmetric]) simp
  also have "\<dots> = 2 powr of_int k / 2 powr of_int (k - 52)"
    by (simp add: powr_diff [symmetric])
  also have "\<dots> \<le> x / quantum x" using kx by (simp add: q divide_right_mono)
  finally have "2 ^ nat 52 \<le> rne (x / quantum x)" by (rule rne_ge)
  then have "real_of_int (2 ^ nat 52) \<le> of_int (rne (x / quantum x))" by (simp only: of_int_le_iff)
  then have "real_of_int (2 ^ nat 52) * quantum x \<le> of_int (rne (x / quantum x)) * quantum x"
    using quantum_pos [of x] by (simp only: mult_le_cancel_right_pos)
  moreover have "real_of_int (2 ^ nat 52) * quantum x = 2 powr of_int k"
  proof -
    have "real_of_int (2 ^ nat 52) = 2 powr of_int 52" by (rule two_powr_int [symmetric]) simp
    then show ?thesis by (simp only: q powr_add [symmetric]) simp
  qed
  moreover have "2 powr of_int a \<le> (2::real) powr of_int k" using ak by (intro powr_mono) simp_all
  ultimately have "2 powr of_int a \<le> of_int (rne (x / quantum x)) * quantum x" by linarith
  then show ?thesis using x by (simp add: mag_def)
qed

lemma quantum_scale: "(2::real) powr of_int (k - 52) * of_int (2 ^ nat 52) = 2 powr of_int k"
proof -
  have "real_of_int (2 ^ nat 52) = 2 powr of_int 52" by (rule two_powr_int [symmetric]) simp
  then show ?thesis by (simp only: powr_add [symmetric]) simp
qed

lemma mag_near:
  assumes x: "0 < x" and a: "2 powr of_int a \<le> x" and lo: "- 1022 \<le> a"
  shows "\<bar>mag x - x\<bar> \<le> x / 2 ^ 53"
proof -
  define k where "k = \<lfloor>log 2 x\<rfloor>"
  have q: "quantum x = 2 powr of_int (k - 52)"
    unfolding k_def using x a lo by (rule quantum_normal)
  have kx: "2 powr of_int k \<le> x" unfolding k_def using x by (rule floor_log2_le)
  have "\<bar>of_int (rne (x / quantum x)) - x / quantum x\<bar> \<le> 1 / 2" by (rule rne_near)
  then have "\<bar>of_int (rne (x / quantum x)) - x / quantum x\<bar> * quantum x \<le> 1 / 2 * quantum x"
    using quantum_pos [of x] by (simp only: mult_le_cancel_right_pos)
  moreover have "\<bar>of_int (rne (x / quantum x)) - x / quantum x\<bar> * quantum x
      = \<bar>of_int (rne (x / quantum x)) * quantum x - x\<bar>"
  proof -
    have "\<bar>of_int (rne (x / quantum x)) - x / quantum x\<bar> * quantum x
        = \<bar>(of_int (rne (x / quantum x)) - x / quantum x) * quantum x\<bar>"
      using quantum_pos [of x] by (simp add: abs_mult)
    also have "(of_int (rne (x / quantum x)) - x / quantum x) * quantum x
        = of_int (rne (x / quantum x)) * quantum x - x"
      using quantum_pos [of x] by (simp add: left_diff_distrib)
    finally show ?thesis .
  qed
  moreover have "1 / 2 * quantum x \<le> x / 2 ^ 53"
  proof -
    have "quantum x * of_int (2 ^ nat 52) = 2 powr of_int k"
      unfolding q by (rule quantum_scale)
    then have "quantum x * 2 ^ 52 \<le> x" using kx by simp
    then show ?thesis by simp
  qed
  ultimately show ?thesis using x by (simp add: mag_def)
qed

lemma fl_pos:
  assumes x: "0 < x" and b: "x \<le> 2 powr of_int b" and lo: "- 1022 \<le> b" and hi: "b \<le> 1023"
  shows "fl x = Fin (mag x)"
proof -
  have "mag x \<le> 2 powr of_int b" using x b lo by (rule mag_upper)
  also have "\<dots> \<le> 2 powr of_int 1023" using hi by (intro powr_mono) simp_all
  also have "\<dots> < 2 ^ 1024" by (rule two_powr_1023)
  finally show ?thesis using x by (simp add: fl_def)
qed

text \<open>A real number between two powers of two rounds to a double between them.\<close>

lemma fl_between:
  assumes "2 powr of_int a \<le> x" "x \<le> 2 powr of_int b" "- 1022 \<le> a" "b \<le> 1023"
  shows "\<exists>y. fl x = Fin y \<and> 2 powr of_int a \<le> y \<and> y \<le> 2 powr of_int b
            \<and> \<bar>y - x\<bar> \<le> x / 2 ^ 53"
proof -
  have x: "0 < x" using assms(1) by (smt (verit) powr_gt_zero)
  have "(2::real) powr of_int a \<le> 2 powr of_int b" using assms(1,2) by linarith
  then have "real_of_int a \<le> of_int b" by (simp only: powr_le_cancel_iff one_less_numeral_iff semiring_norm)
  then have "a \<le> b" by simp
  then have lo: "- 1022 \<le> b" using assms(3) by simp
  have "fl x = Fin (mag x)" using x assms(2) lo assms(4) by (rule fl_pos)
  moreover have "2 powr of_int a \<le> mag x" using x assms(1,3) by (rule mag_lower)
  moreover have "mag x \<le> 2 powr of_int b" using x assms(2) lo by (rule mag_upper)
  moreover have "\<bar>mag x - x\<bar> \<le> x / 2 ^ 53" using x assms(1,3) by (rule mag_near)
  ultimately show ?thesis by blast
qed

text \<open>A real number from 0 to a power of two rounds to a double in that range.\<close>

lemma fl_nonneg:
  assumes "0 \<le> x" "x \<le> 2 powr of_int b" "- 1022 \<le> b" "b \<le> 1023"
  shows "\<exists>y. fl x = Fin y \<and> 0 \<le> y \<and> y \<le> 2 powr of_int b"
proof (cases "x = 0")
  case True
  then show ?thesis by (simp add: fl_def)
next
  case False
  then have x: "0 < x" using assms(1) by simp
  have "fl x = Fin (mag x)" using x assms(2,3,4) by (rule fl_pos)
  moreover have "mag x \<le> 2 powr of_int b" using x assms(2,3) by (rule mag_upper)
  ultimately show ?thesis using mag_nonneg [of x] by blast
qed

text \<open>A nonnegative real number rounds to a nonnegative double or to \<open>+inf\<close>.\<close>

lemma fl_nonneg_cases:
  assumes "0 \<le> x"
  shows "(\<exists>y. fl x = Fin y \<and> 0 \<le> y) \<or> fl x = Inf True"
proof (cases "x = 0")
  case True
  then show ?thesis by (simp add: fl_def)
next
  case False
  then have x: "0 < x" using assms by simp
  then show ?thesis using mag_nonneg [of x] by (simp add: fl_def)
qed

lemma quantum_minus: "quantum (- x) = quantum x"
  by (simp add: quantum_def)

lemma mag_minus: "mag (- x) = mag x"
  by (simp add: mag_def quantum_minus)

lemma fl_minus:
  "fl (- x) = (case fl x of Fin y \<Rightarrow> Fin (- y) | Inf s \<Rightarrow> Inf (\<not> s) | NaN \<Rightarrow> NaN)"
proof (cases "x = 0")
  case True
  then show ?thesis by (simp add: fl_def)
next
  case False
  then consider "0 < x" | "x < 0" by linarith
  then show ?thesis
  proof cases
    case 1
    then show ?thesis by (simp add: fl_def mag_minus)
  next
    case 2
    then show ?thesis by (simp add: fl_def mag_minus)
  qed
qed

lemma fl_one: "fl 1 = Fin 1"
proof -
  have "2 powr of_int 0 \<le> (1::real)" "(1::real) \<le> 2 powr of_int 0" by simp_all
  from fl_between [OF this] obtain y where "fl 1 = Fin y" "2 powr of_int 0 \<le> y" "y \<le> 2 powr of_int 0"
    by auto
  then show ?thesis by simp
qed

lemma fl_four: "fl 4 = Fin 4"
proof -
  have "2 powr of_int 2 \<le> (4::real)" "(4::real) \<le> 2 powr of_int 2" by simp_all
  from fl_between [OF this] obtain y where "fl 4 = Fin y" "2 powr of_int 2 \<le> y" "y \<le> 2 powr of_int 2"
    by auto
  then show ?thesis by simp
qed

lemma fl_underflow:
  assumes "0 \<le> x" "x \<le> 2 powr of_int (- 1075)"
  shows "fl x = Fin 0"
proof (cases "x = 0")
  case True
  then show ?thesis by (simp add: fl_def)
next
  case False
  then have x: "0 < x" using assms(1) by simp
  have "x \<le> 2 powr of_int (- 1022)"
  proof -
    have "(2::real) powr of_int (- 1075) \<le> 2 powr of_int (- 1022)" by (intro powr_mono) simp_all
    then show ?thesis using assms(2) by linarith
  qed
  then have "\<lfloor>log 2 x\<rfloor> \<le> - 1022" using x by (intro floor_log2_le_upper)
  then have "max \<lfloor>log 2 \<bar>x\<bar>\<rfloor> (- 1022) = - 1022" using x by simp
  then have q: "quantum x = 2 powr of_int (- 1074)" by (simp only: quantum_def) simp
  have "x / quantum x \<le> 2 powr of_int (- 1075) / 2 powr of_int (- 1074)"
    unfolding q using assms(2) by (intro divide_right_mono) simp_all
  also have "\<dots> = 2 powr of_int (- 1075 - (- 1074))" by (simp only: powr_diff of_int_diff)
  also have "\<dots> = 1 / 2" by (simp add: powr_minus_divide)
  finally have "x / quantum x \<le> 1 / 2" .
  moreover have "0 \<le> x / quantum x" using x quantum_pos [of x] by simp
  ultimately have "rne (x / quantum x) = 0" by (intro rne_small)
  then have "mag x = 0" using x by (simp add: mag_def)
  then show ?thesis using x by (simp add: fl_def)
qed




text \<open>Rounding widens an interval of normal numbers by less than a thousandth.\<close>

lemma fl_step:
  assumes "lo \<le> x" "x \<le> hi" "2 powr of_int a \<le> lo" "hi \<le> 2 powr of_int b"
    and "- 1022 \<le> a" "b \<le> 1023"
  shows "\<exists>y. fl x = Fin y \<and> lo * (999 / 1000) \<le> y \<and> y \<le> hi * (1001 / 1000)"
proof -
  have xa: "2 powr of_int a \<le> x" and xb: "x \<le> 2 powr of_int b" using assms by linarith+
  from fl_between [OF xa xb assms(5,6)] obtain y where
    y: "fl x = Fin y" and n: "\<bar>y - x\<bar> \<le> x / 2 ^ 53" by blast
  have x: "0 < x" using xa by (smt (verit) powr_gt_zero)
  have "x / 2 ^ 53 \<le> x / 1000" using x by (intro divide_left_mono) simp_all
  with n have "\<bar>y - x\<bar> \<le> x / 1000" by linarith
  then have "x - x / 1000 \<le> y" "y \<le> x + x / 1000" by linarith+
  moreover have "lo * (999 / 1000) \<le> x - x / 1000" using assms(1) by simp
  moreover have "x + x / 1000 \<le> hi * (1001 / 1000)" using assms(2) by simp
  ultimately show ?thesis using y by (intro exI [of _ y]) linarith
qed

lemma sqrt2_bounds: "141 / 100 \<le> sqrt 2" "sqrt 2 \<le> 142 / 100"
proof -
  show "141 / 100 \<le> sqrt 2" by (rule real_le_rsqrt) (simp add: power2_eq_square)
  show "sqrt 2 \<le> 142 / 100" by (rule real_le_lsqrt) (simp_all add: power2_eq_square)
qed

lemma sqrt3_bounds: "173 / 100 \<le> sqrt 3" "sqrt 3 \<le> 174 / 100"
proof -
  show "173 / 100 \<le> sqrt 3" by (rule real_le_rsqrt) (simp add: power2_eq_square)
  show "sqrt 3 \<le> 174 / 100" by (rule real_le_lsqrt) (simp_all add: power2_eq_square)
qed

lemma fl_sqrt2: "\<exists>s. fl (sqrt 2) = Fin s \<and> 14 / 10 \<le> s \<and> s \<le> 143 / 100"
proof -
  from fl_step [OF sqrt2_bounds, of 0 1] obtain y where
    "fl (sqrt 2) = Fin y" "141 / 100 * (999 / 1000) \<le> y" "y \<le> 142 / 100 * (1001 / 1000)"
    by auto
  then show ?thesis by (intro exI [of _ y]) simp
qed

lemma fl_sqrt3: "\<exists>s. fl (sqrt 3) = Fin s \<and> 172 / 100 \<le> s \<and> s \<le> 175 / 100"
proof -
  from fl_step [OF sqrt3_bounds, of 0 1] obtain y where
    "fl (sqrt 3) = Fin y" "173 / 100 * (999 / 1000) \<le> y" "y \<le> 174 / 100 * (1001 / 1000)"
    by auto
  then show ?thesis by (intro exI [of _ y]) simp
qed

lemma float_of_int_range:
  assumes "1 \<le> n" "real n \<le> 2 powr of_int b" "b \<le> 1023"
  shows "\<exists>x. float_of_int n = Inr x \<and> 1 \<le> x \<and> x \<le> 2 powr of_int b"
proof -
  have "2 powr of_int 0 \<le> real n" using assms(1) by simp
  from fl_between [OF this assms(2) _ assms(3)] obtain y where
    "fl (real n) = Fin y" "2 powr of_int 0 \<le> y" "y \<le> 2 powr of_int b" by auto
  then show ?thesis by (simp add: float_of_int_def)
qed

lemma float_of_int_nonneg:
  assumes "real n \<le> 2 powr of_int 1023"
  shows "\<exists>x. float_of_int n = Inr x \<and> 0 \<le> x"
proof -
  have "0 \<le> real n" by simp
  from fl_nonneg [OF this assms] obtain y where "fl (real n) = Fin y" "0 \<le> y" by auto
  then show ?thesis by (simp add: float_of_int_def)
qed

lemma float_of_int_1: "float_of_int 1 = Inr 1"
  by (simp add: float_of_int_def fl_one)

lemma float_of_int_Suc_0: "float_of_int (Suc 0) = Inr 1"
  by (simp add: float_of_int_def fl_one)




lemma real_pow_pos: "0 < x \<Longrightarrow> 0 < real_pow x y"
  by (simp add: real_pow_def)

subsection \<open>The grid size\<close>







subsection \<open>Lattice initialisation\<close>




























subsection \<open>Where the lattice fails\<close>










subsection \<open>The example engine and state\<close>

lemma one_particle_box: "state_box one_particle_sim = cube 10"
  by (simp add: state_box_def one_particle_sim_def one_particle_def)

lemma volume_cube: "volume (cube l) = l ^ 3"
  by (simp add: volume_def cube_def box_of_list_def power3_eq_cube)

lemma volume_cube_numeral: "volume (cube 10) = 1000" "volume (cube 5) = 125" "volume (cube 20) = 8000"
  by (simp_all add: volume_cube)

lemma create_random_files:
  "create_state_from_gsd (frozen_engine k) random_files ''random.gsd'' = Inr one_particle_sim"
  by (simp add: create_state_from_gsd_def random_files_def frozen_engine_def
      one_particle_sim_def one_particle_def)

lemma never_complete: "\<not> compress_complete (frozen_engine (Suc k)) mc qc s"
  by (simp add: compress_complete_def frozen_engine_def)

lemma one_particle_N: "particles_N (snap one_particle_sim) = 1"
  by (simp add: one_particle_sim_def one_particle_def)

lemma frozen_pow: "float_pow (frozen_engine k) = real_pow"
  by (simp add: frozen_engine_def)

lemma frozen_degenerate: "cube_degenerate (frozen_engine k) l = Inl ValueError"
  by (simp add: frozen_engine_def)

lemma frozen_pow_pos: "\<forall>x. 0 < x \<longrightarrow> 0 < float_pow (frozen_engine k) x third"
  by (simp add: frozen_pow real_pow_pos)

lemma one_particle_count: "particles_N (snap one_particle_sim) \<le> 2 ^ 1023"
  by (simp add: one_particle_N)

subsection \<open>Target boxes\<close>

lemma volume_set_volume: "volume b \<noteq> 0 \<Longrightarrow> volume (set_volume b v) = v"
proof -
  assume nz: "volume b \<noteq> 0"
  have "volume (set_volume b v) = volume b * (root 3 (v / volume b)) ^ 3"
    by (simp add: set_volume_def volume_def power3_eq_cube algebra_simps)
  also have "\<dots> = volume b * (v / volume b)" by (simp add: odd_real_root_pow)
  also have "\<dots> = v" using nz by simp
  finally show ?thesis .
qed

lemma two_powr_0: "(2::real) powr of_int 0 = 1" by simp

lemma two_powr_1: "(2::real) powr of_int 1 = 2" by simp

lemma div_pow2_upper:
  assumes "0 \<le> (x::real)" "x \<le> 2 powr of_int a" "2 powr of_int b \<le> (y::real)"
  shows "x / y \<le> 2 powr of_int (a - b)"
proof -
  have y: "0 < y" using assms(3) by (smt (verit) powr_gt_zero)
  have "x / y \<le> 2 powr of_int a / 2 powr of_int b"
    using assms y by (intro frac_le) simp_all
  then show ?thesis by (simp add: powr_diff)
qed

lemma div_pow2_lower:
  assumes "2 powr of_int a \<le> (x::real)" "0 < (y::real)" "y \<le> 2 powr of_int b"
  shows "2 powr of_int (a - b) \<le> x / y"
proof -
  have "0 < x" using assms(1) by (smt (verit) powr_gt_zero)
  then have "2 powr of_int a / 2 powr of_int b \<le> x / y"
    using assms by (intro frac_le) simp_all
  then show ?thesis by (simp add: powr_diff)
qed

lemma mul_pow2_upper:
  assumes "0 \<le> (x::real)" "x \<le> 2 powr of_int a" "0 \<le> (y::real)" "y \<le> 2 powr of_int b"
  shows "x * y \<le> 2 powr of_int (a + b)"
proof -
  have "x * y \<le> 2 powr of_int a * 2 powr of_int b"
    using assms by (intro mult_mono) simp_all
  then show ?thesis by (simp add: powr_add)
qed

lemma mul_pow2_lower:
  assumes "2 powr of_int a \<le> (x::real)" "2 powr of_int b \<le> (y::real)"
  shows "2 powr of_int (a + b) \<le> x * y"
proof -
  have "0 < x" using assms(1) by (smt (verit) powr_gt_zero)
  then have "2 powr of_int a * 2 powr of_int b \<le> x * y"
    using assms by (intro mult_mono) simp_all
  then show ?thesis by (simp add: powr_add)
qed

text \<open>
  For a positive diameter and a nonnegative length the close packing density is a finite
  float between 0 and 2: it is 0 when \<open>L / D\<close> overflows.
\<close>

lemma rho_c_range:
  assumes "0 < D p" "0 \<le> L p"
  shows "\<exists>c. rho_c p = Inr (Fin c) \<and> 0 \<le> c \<and> c \<le> 2"
proof -
  obtain s2 where s2: "fl (sqrt 2) = Fin s2" "14 / 10 \<le> s2" "s2 \<le> 143 / 100"
    using fl_sqrt2 by blast
  obtain s3 where s3: "fl (sqrt 3) = Fin s3" "172 / 100 \<le> s3" "s3 \<le> 175 / 100"
    using fl_sqrt3 by blast
  have d0: "D p \<noteq> 0" using assms by simp
  have q: "0 \<le> L p / D p" using assms by simp
  have last: "\<exists>c. fdiv (Fin 2) (fl x) = Inr (Fin c) \<and> 0 \<le> c \<and> c \<le> 2" if "1 \<le> x" for x
  proof -
    from fl_nonneg_cases [of x] that
    consider u where "fl x = Fin u" "0 \<le> u" | "fl x = Inf True" by auto
    then show ?thesis
    proof cases
      case 1
      have "1 \<le> u"
      proof (rule ccontr)
        assume "\<not> 1 \<le> u"
        moreover have "2 powr of_int 0 \<le> mag x" using that by (intro mag_lower) simp_all
        moreover have "fl x = Fin (mag x) \<or> fl x = Inf True" using that by (simp add: fl_def)
        ultimately show False using 1 by auto
      qed
      then have u0: "u \<noteq> 0" and r: "0 \<le> 2 / u" "2 / u \<le> 2 powr of_int 1"
        by (simp_all add: field_simps)
      from fl_nonneg [OF r] obtain c where "fl (2 / u) = Fin c" "0 \<le> c" "c \<le> 2" by auto
      then show ?thesis using 1 u0 by simp
    next
      case 2
      then show ?thesis by simp
    qed
  qed
  from fl_nonneg_cases [OF q]
  consider r where "fl (L p / D p) = Fin r" "0 \<le> r" | "fl (L p / D p) = Inf True" by auto
  then show ?thesis
  proof cases
    case 1
    have "0 \<le> r * s3" using 1 s3 by simp
    from fl_nonneg_cases [OF this]
    consider t where "fl (r * s3) = Fin t" "0 \<le> t" | "fl (r * s3) = Inf True" by auto
    then show ?thesis
    proof cases
      case (1 t)
      have "1 \<le> s2 + t" using 1 s2 by simp
      from last [OF this] show ?thesis
        using \<open>fl (L p / D p) = Fin r\<close> 1 s2 s3 by (simp add: rho_c_def d0 and_then_def)
    next
      case 2
      then show ?thesis
        using \<open>fl (L p / D p) = Fin r\<close> s2 s3 by (simp add: rho_c_def d0 and_then_def)
    qed
  next
    case 2
    then show ?thesis using s2 s3 by (simp add: rho_c_def d0 and_then_def)
  qed
qed

lemma rho_c_safe:
  assumes "2 powr of_int (- 300) \<le> D p" "D p \<le> 2 powr of_int 300"
    and "0 \<le> L p" "L p \<le> 2 powr of_int 300"
  shows "\<exists>c. rho_c p = Inr (Fin c) \<and> 2 powr of_int (- 601) \<le> c \<and> c \<le> 2 powr of_int 1"
proof -
  have D0: "0 < D p" using assms(1) by (smt (verit) powr_gt_zero)
  obtain s2 where s2: "fl (sqrt 2) = Fin s2" "14 / 10 \<le> s2" "s2 \<le> 143 / 100"
    using fl_sqrt2 by blast
  obtain s3 where s3: "fl (sqrt 3) = Fin s3" "172 / 100 \<le> s3" "s3 \<le> 175 / 100"
    using fl_sqrt3 by blast
  have q0: "0 \<le> L p / D p" using assms(3) D0 by simp
  have "L p / D p \<le> 2 powr of_int (300 - (- 300))"
    using assms(3,4,1) by (rule div_pow2_upper)
  then have q1: "L p / D p \<le> 2 powr of_int 600" by simp
  from fl_nonneg [OF q0 q1] obtain r where
    r: "fl (L p / D p) = Fin r" "0 \<le> r" "r \<le> 2 powr of_int 600" by auto
  have t0: "0 \<le> r * s3" using r s3 by simp
  have s3b: "0 \<le> s3" "s3 \<le> 2 powr of_int 1" using s3 by simp_all
  have "r * s3 \<le> 2 powr of_int (600 + 1)" using r(2,3) s3b by (rule mul_pow2_upper)
  then have t1: "r * s3 \<le> 2 powr of_int 601" by simp
  from fl_nonneg [OF t0 t1] obtain t where
    t: "fl (r * s3) = Fin t" "0 \<le> t" "t \<le> 2 powr of_int 601" by auto
  have u0: "2 powr of_int 0 \<le> s2 + t" using s2 t by simp
  have "(2::real) powr of_int 602 = 2 powr of_int 601 * 2 powr of_int 1"
    by (simp only: powr_add [symmetric] of_int_add [symmetric]) simp
  moreover have "(2::real) powr of_int 1 \<le> 2 powr of_int 601" by (intro powr_mono) simp_all
  ultimately have u1: "s2 + t \<le> 2 powr of_int 602" using s2 t by simp
  from fl_between [OF u0 u1] obtain u where
    u: "fl (s2 + t) = Fin u" "2 powr of_int 0 \<le> u" "u \<le> 2 powr of_int 602" by auto
  have up: "0 < u" "1 \<le> u" using u(2) by simp_all
  have "(2::real) powr of_int 1 \<le> 2" by simp
  from div_pow2_lower [OF this up(1) u(3)] have c0: "2 powr of_int (- 601) \<le> 2 / u" by simp
  have c1: "2 / u \<le> 2 powr of_int 1" using up by (simp add: field_simps)
  from fl_between [OF c0 c1] obtain c where
    c: "fl (2 / u) = Fin c" "2 powr of_int (- 601) \<le> c" "c \<le> 2 powr of_int 1" by auto
  have "rho_c p = Inr (Fin c)"
    using D0 r(1) s2(1) s3(1) t(1) u(1) up c(1) by (simp add: rho_c_def and_then_def)
  then show ?thesis using c by blast
qed

lemma box_V_safe:
  assumes "2 powr of_int (- 300) \<le> D p" "D p \<le> 2 powr of_int 300"
    and "0 \<le> L p" "L p \<le> 2 powr of_int 300"
    and "2 powr of_int (- 300) \<le> \<bar>rho_star p\<bar>" "\<bar>rho_star p\<bar> \<le> 2 powr of_int 300"
    and "1 \<le> n" "real n \<le> 2 powr of_int 64"
  shows "\<exists>v. box_V p n = Inr (Fin v) \<and> (0 < rho_star p \<longrightarrow> 0 < v) \<and> (rho_star p < 0 \<longrightarrow> v < 0)"
proof -
  from rho_c_safe [OF assms(1-4)] obtain c where
    c: "rho_c p = Inr (Fin c)" "2 powr of_int (- 601) \<le> c" "c \<le> 2 powr of_int 1" by blast
  have c0: "0 \<le> c" using c(2) by (smt (verit) powr_gt_zero)
  have a0: "0 \<le> \<bar>rho_star p\<bar>" by simp
  have "2 powr of_int (- 601 + - 300) \<le> c * \<bar>rho_star p\<bar>"
    using c(2) assms(5) by (rule mul_pow2_lower)
  then have m0: "2 powr of_int (- 901) \<le> c * \<bar>rho_star p\<bar>" by simp
  have "c * \<bar>rho_star p\<bar> \<le> 2 powr of_int (1 + 300)"
    using c0 c(3) a0 assms(6) by (rule mul_pow2_upper)
  then have m1: "c * \<bar>rho_star p\<bar> \<le> 2 powr of_int 301" by simp
  from fl_between [OF m0 m1] obtain r where
    r: "fl (c * \<bar>rho_star p\<bar>) = Fin r" "2 powr of_int (- 901) \<le> r" "r \<le> 2 powr of_int 301"
    by auto
  have rp: "0 < r" using r(2) by (smt (verit) powr_gt_zero)
  from float_of_int_range [OF assms(7,8)] obtain x where
    x: "float_of_int n = Inr x" "1 \<le> x" "x \<le> 2 powr of_int 64" by auto
  have x0: "2 powr of_int 0 \<le> x" "0 \<le> x" using x(2) by simp_all
  from div_pow2_lower [OF x0(1) rp r(3)] have v0: "2 powr of_int (- 301) \<le> x / r" by simp
  from div_pow2_upper [OF x0(2) x(3) r(2)] have v1: "x / r \<le> 2 powr of_int 965" by simp
  from fl_between [OF v0 v1] obtain v where
    v: "fl (x / r) = Fin v" "2 powr of_int (- 301) \<le> v" by auto
  have vp: "0 < v" using v(2) by (smt (verit) powr_gt_zero)
  have nz: "rho_star p \<noteq> 0" using assms(5) by (smt (verit) powr_gt_zero)
  show ?thesis
  proof (cases "0 < rho_star p")
    case True
    then have "fl (c * rho_star p) = Fin r" using r(1) by simp
    then have "box_V p n = Inr (Fin v)"
      using c(1) x(1) v(1) rp by (simp add: box_V_def rho_def and_then_def)
    then show ?thesis using vp True by auto
  next
    case False
    then have neg: "rho_star p < 0" using nz by simp
    then have "c * rho_star p = - (c * \<bar>rho_star p\<bar>)" by simp
    then have "fl (c * rho_star p) = Fin (- r)" using r(1) by (simp only: fl_minus) simp
    moreover have "fl (x / - r) = Fin (- v)"
    proof -
      have "x / - r = - (x / r)" by simp
      then show ?thesis using v(1) by (simp only: fl_minus) simp
    qed
    ultimately have "box_V p n = Inr (Fin (- v))"
      using c(1) x(1) rp by (simp add: box_V_def rho_def and_then_def)
    then show ?thesis using vp neg by auto
  qed
qed

lemma rho_zero_density:
  assumes "0 < D p" "0 \<le> L p" "rho_star p = 0"
  shows "rho p = Inr (Fin 0)"
proof -
  from rho_c_range [OF assms(1,2)] obtain c where "rho_c p = Inr (Fin c)" by blast
  then show ?thesis using assms(3) by (simp add: rho_def and_then_def fl_def)
qed

lemma box_V_zero_density:
  assumes "rho p = Inr (Fin 0)" "real n \<le> 2 powr of_int 1023"
  shows "box_V p n = Inl ZeroDivisionError"
proof -
  from float_of_int_nonneg [OF assms(2)] obtain x where "float_of_int n = Inr x" by blast
  then show ?thesis using assms(1) by (simp add: box_V_def and_then_def)
qed

text \<open>
  With a particle count that converts to a float, the division \<^verbatim>\<open>N / rho\<close> raises only
  for a zero density; an error raised while the density is computed is the error of the
  target volume.
\<close>

lemma box_V_nonzero:
  assumes "rho p = Inr r" "r \<noteq> Fin 0" "real n \<le> 2 powr of_int 1023"
  shows "\<exists>v. box_V p n = Inr v"
proof -
  from float_of_int_nonneg [OF assms(3)] obtain x where x: "float_of_int n = Inr x" by blast
  have "\<exists>v. fdiv (Fin x) r = Inr v" using assms(2) by (cases r) simp_all
  then show ?thesis using assms(1) x by (simp add: box_V_def and_then_def)
qed

lemma box_V_density_raises: "rho p = Inl e \<Longrightarrow> box_V p n = Inl e"
  by (simp add: box_V_def and_then_def)

lemma final_box_raises:
  "box_V p n = Inl e \<Longrightarrow> final_box pw oc p n = Inl e"
  by (simp add: final_box_def box_L_def and_then_def)

lemma final_box_accepts:
  assumes "box_V p n = Inr (Fin v)" "0 < v" "0 < pw v third"
  shows "final_box pw oc p n = Inr (cube (pw v third))"
  using assms by (simp add: final_box_def box_L_def and_then_def pow_third_def)

lemma final_box_degenerate:
  assumes "box_V p n = Inr v" "\<not> positive_float v"
  shows "final_box pw oc p n = oc (pow_third pw v)" and "\<not> valid_edge (pow_third pw v)"
  using assms
  by (auto simp: final_box_def box_L_def and_then_def pow_third_def positive_float_def
      valid_edge_def split: fval.splits)

text \<open>The close packing density at \<open>L / D = 4\<close>, about 0.2397.\<close>

lemma rho_c_ratio_4:
  assumes "D p \<noteq> 0" "L p / D p = 4"
  shows "\<exists>c. rho_c p = Inr (Fin c) \<and> 236 / 1000 \<le> c \<and> c \<le> 243 / 1000"
proof -
  obtain s2 where s2: "fl (sqrt 2) = Fin s2" "14 / 10 \<le> s2" "s2 \<le> 143 / 100"
    using fl_sqrt2 by blast
  obtain s3 where s3: "fl (sqrt 3) = Fin s3" "172 / 100 \<le> s3" "s3 \<le> 175 / 100"
    using fl_sqrt3 by blast
  have t0: "688 / 100 \<le> 4 * s3" "4 * s3 \<le> 7" using s3 by simp_all
  from fl_step [OF t0, of 2 3] obtain t where
    t: "fl (4 * s3) = Fin t" "687 / 100 \<le> t" "t \<le> 701 / 100" by auto
  have u0: "827 / 100 \<le> s2 + t" "s2 + t \<le> 844 / 100" using s2 t by simp_all
  from fl_step [OF u0, of 3 4] obtain u where
    u: "fl (s2 + t) = Fin u" "826 / 100 \<le> u" "u \<le> 845 / 100" by auto
  have up: "0 < u" using u by simp
  have c0: "2366 / 10000 \<le> 2 / u" "2 / u \<le> 2422 / 10000"
    using u up by (simp_all add: field_simps)
  from fl_step [OF c0, of "- 3" "- 2"] obtain c where
    c: "fl (2 / u) = Fin c" "236 / 1000 \<le> c" "c \<le> 243 / 1000"
    by (auto simp: powr_minus_divide)
  have "rho_c p = Inr (Fin c)"
    using assms s2(1) s3(1) fl_four t(1) u(1) up c(1) by (simp add: rho_c_def and_then_def)
  then show ?thesis using c by blast
qed

lemma pow_third_cube_le_one:
  assumes "0 < v" "v \<le> 1"
  shows "0 < volume (cube (real_pow v third))" "volume (cube (real_pow v third)) \<le> 1"
proof -
  have e: "volume (cube (real_pow v third)) = v powr (3 * third)"
    using assms(1) by (simp add: volume_def cube_def box_of_list_def real_pow_def
        power3_eq_cube [symmetric] powr_power)
  show "0 < volume (cube (real_pow v third))" unfolding e using assms(1) by simp
  show "volume (cube (real_pow v third)) \<le> 1"
    unfolding e using assms by (intro powr_le1) (simp_all add: third_def)
qed

lemma pow_third_cube_le:
  assumes "1 \<le> v"
  shows "0 < volume (cube (real_pow v third))" "volume (cube (real_pow v third)) \<le> v"
proof -
  have v0: "0 < v" using assms by simp
  have e: "volume (cube (real_pow v third)) = v powr (3 * third)"
    using v0 by (simp add: volume_def cube_def box_of_list_def real_pow_def
        power3_eq_cube [symmetric] powr_power)
  show "0 < volume (cube (real_pow v third))" unfolding e using v0 by simp
  have "v powr (3 * third) \<le> v powr 1" using assms by (intro powr_mono) (simp_all add: third_def)
  then show "volume (cube (real_pow v third)) \<le> v" unfolding e using v0 by simp
qed

text \<open>The setup at the reduced density 5, for one particle: a cube of volume at most 1.\<close>

lemma dense_box:
  "\<exists>v. box_V dense_params 1 = Inr (Fin v) \<and> 0 < v \<and> v \<le> 1"
proof -
  have "D dense_params \<noteq> 0" "L dense_params / D dense_params = 4"
    by (simp_all add: dense_params_def)
  from rho_c_ratio_4 [OF this] obtain c where
    c: "rho_c dense_params = Inr (Fin c)" "236 / 1000 \<le> c" "c \<le> 243 / 1000" by blast
  have r0: "118 / 100 \<le> c * 5" "c * 5 \<le> 1215 / 1000" using c by simp_all
  from fl_step [OF r0, of 0 1] obtain r where
    r: "fl (c * 5) = Fin r" "117 / 100 \<le> r" "r \<le> 122 / 100" by auto
  have rp: "0 < r" using r by simp
  have v0: "81 / 100 \<le> 1 / r" "1 / r \<le> 86 / 100" using r rp by (simp_all add: field_simps)
  from fl_step [OF v0, of "- 1" 0] obtain v where
    v: "fl (1 / r) = Fin v" "80 / 100 \<le> v" "v \<le> 87 / 100"
    by (auto simp: powr_minus_divide)
  have "box_V dense_params 1 = Inr (Fin v)"
    using c(1) r(1) rp v(1)
    by (simp add: box_V_def rho_def and_then_def dense_params_def float_of_int_Suc_0)
  then show ?thesis using v by (intro exI [of _ v]) simp
qed

text \<open>
  The setup for particles of diameter 2 and length 8 at the reduced density 0.3, for one
  particle: a cube of volume at most 14.3.
\<close>

lemma wide_box:
  "\<exists>v. box_V wide_params 1 = Inr (Fin v) \<and> 1 \<le> v \<and> v \<le> 143 / 10"
proof -
  have "D wide_params \<noteq> 0" "L wide_params / D wide_params = 4"
    by (simp_all add: wide_params_def)
  from rho_c_ratio_4 [OF this] obtain c where
    c: "rho_c wide_params = Inr (Fin c)" "236 / 1000 \<le> c" "c \<le> 243 / 1000" by blast
  define rs :: real where "rs = 5404319552844595 / 18014398509481984"
  have rs: "299 / 1000 \<le> rs" "rs \<le> 3 / 10" by (simp_all add: rs_def)
  have "236 / 1000 * (299 / 1000) \<le> c * rs" using c(2) rs(1) by (intro mult_mono) simp_all
  then have r0: "705 / 10000 \<le> c * rs" by simp
  have "c * rs \<le> 243 / 1000 * (3 / 10)" using c rs by (intro mult_mono) simp_all
  then have r1: "c * rs \<le> 729 / 10000" by simp
  from fl_step [OF r0 r1, of "- 4" "- 3"] obtain r where
    r: "fl (c * rs) = Fin r" "704 / 10000 \<le> r" "r \<le> 730 / 10000"
    by (auto simp: powr_minus_divide)
  have rp: "0 < r" using r by simp
  have v0: "1369 / 100 \<le> 1 / r" "1 / r \<le> 1421 / 100" using r rp by (simp_all add: field_simps)
  from fl_step [OF v0, of 3 4] obtain v where
    v: "fl (1 / r) = Fin v" "1367 / 100 \<le> v" "v \<le> 1423 / 100" by auto
  have "box_V wide_params 1 = Inr (Fin v)"
    using c(1) r(1) rp v(1)
    by (simp add: box_V_def rho_def and_then_def wide_params_def float_of_int_Suc_0 rs_def)
  then show ?thesis using v by (intro exI [of _ v]) simp
qed

text \<open>At the reduced density \<^verbatim>\<open>5e-324\<close> the float product \<open>rho_c * rho_star\<close> is zero.\<close>

lemma tiny_density_rho: "rho tiny_density_params = Inr (Fin 0)"
proof -
  have "D tiny_density_params \<noteq> 0" "L tiny_density_params / D tiny_density_params = 4"
    by (simp_all add: tiny_density_params_def)
  from rho_c_ratio_4 [OF this] obtain c where
    c: "rho_c tiny_density_params = Inr (Fin c)" "236 / 1000 \<le> c" "c \<le> 243 / 1000" by blast
  have e: "rho_star tiny_density_params = 2 powr of_int (- 1074)"
    by (simp add: tiny_density_params_def powr_minus_divide)
  have "c * 2 powr of_int (- 1074) \<le> 2 powr of_int (- 1) * 2 powr of_int (- 1074)"
    using c by (intro mult_right_mono) (simp_all add: powr_minus_divide)
  also have "\<dots> = 2 powr of_int (- 1 + - 1074)" by (simp only: powr_add of_int_add)
  also have "\<dots> = 2 powr of_int (- 1075)" by simp
  finally have "c * 2 powr of_int (- 1074) \<le> 2 powr of_int (- 1075)" .
  moreover have "0 \<le> c * 2 powr of_int (- 1074)" using c by simp
  ultimately have "fl (c * 2 powr of_int (- 1074)) = Fin 0" by (intro fl_underflow)
  then show ?thesis using c(1) unfolding rho_def e by (simp add: and_then_def)
qed

lemma spherocylinder_volume_1_4: "2 < spherocylinder_volume 1 4"
  using pi_ge_two by (simp add: spherocylinder_volume_def)

lemma spherocylinder_volume_2_8: "18 < spherocylinder_volume 2 8"
  using pi_ge_two by (simp add: spherocylinder_volume_def)

lemma packing_fraction_above_one:
  assumes "0 < w" "w < v"
  shows "1 < packing_fraction 1 v w"
  using assms by (simp add: packing_fraction_def)

text \<open>
  Claim C3 at particles of diameter 2 and length 8 and the reduced density 0.3 (one
  particle): the cube that \<^verbatim>\<open>compress\<close> and the walk-through hand to \<^verbatim>\<open>QuickCompress\<close>
  as its target is smaller than the particle itself, a packing fraction above 1.
\<close>

theorem wide_target_overpacked:
  "0 < rho_star wide_params \<and> rho_star wide_params < 1
   \<and> create_state_from_gsd (frozen_engine 0) random_files ''random.gsd'' = Inr one_particle_sim
   \<and> (case final_box (float_pow (frozen_engine 0)) (cube_degenerate (frozen_engine 0))
             wide_params (particles_N (snap one_particle_sim)) of
        Inl e \<Rightarrow> False
      | Inr fb \<Rightarrow>
          volume fb < spherocylinder_volume (D wide_params) (L wide_params)
          \<and> 1 < packing_fraction (particles_N (snap one_particle_sim))
                  (spherocylinder_volume (D wide_params) (L wide_params)) (volume fb)
          \<and> updaters (compress_ops wide_params fb)
              = [\<lparr>qc_trigger = Periodic 10, qc_seed = 1, target_box = fb\<rparr>]
          \<and> updaters (walkthrough_ops wide_params fb)
              = [\<lparr>qc_trigger = Periodic 10, qc_seed = 1, target_box = fb\<rparr>]
          \<and> walkthrough_compress (frozen_engine 0) wide_params random_files
              = Inr (gsd_write
                  (compress_loop (frozen_engine 0) (walkthrough_ops wide_params fb)
                     (walkthrough_updater fb) 50000 one_particle_sim)
                  ''compressed.gsd'' random_files))"
proof -
  from wide_box obtain v where v: "box_V wide_params 1 = Inr (Fin v)" "1 \<le> v" "v \<le> 143 / 10"
    by blast
  have vp: "0 < v" using v(2) by simp
  have f: "final_box (float_pow (frozen_engine 0)) (cube_degenerate (frozen_engine 0))
      wide_params (particles_N (snap one_particle_sim)) = Inr (cube (real_pow v third))"
    unfolding frozen_pow one_particle_N using v(1) vp real_pow_pos [OF vp]
    by (rule final_box_accepts)
  note vol = pow_third_cube_le [OF v(2)]
  have e: "D wide_params = 2" "L wide_params = 8" by (simp_all add: wide_params_def)
  have lt: "volume (cube (real_pow v third)) < spherocylinder_volume 2 8"
    using vol(2) v(3) spherocylinder_volume_2_8 by linarith
  with vol(1) have pf: "1 < packing_fraction 1 (spherocylinder_volume 2 8)
      (volume (cube (real_pow v third)))" by (rule packing_fraction_above_one)
  note c = create_random_files [of 0]
  have w: "walkthrough_compress (frozen_engine 0) wide_params random_files
      = Inr (gsd_write
          (compress_loop (frozen_engine 0) (walkthrough_ops wide_params (cube (real_pow v third)))
             (walkthrough_updater (cube (real_pow v third))) 50000 one_particle_sim)
          ''compressed.gsd'' random_files)"
    by (simp add: walkthrough_compress_def c f and_then_def Let_def)
  have r: "0 < rho_star wide_params" "rho_star wide_params < 1"
    by (simp_all add: wide_params_def)
  have u: "updaters (compress_ops wide_params fb)
              = [\<lparr>qc_trigger = Periodic 10, qc_seed = 1, target_box = fb\<rparr>]"
    "updaters (walkthrough_ops wide_params fb)
              = [\<lparr>qc_trigger = Periodic 10, qc_seed = 1, target_box = fb\<rparr>]" for fb
    by (simp_all add: compress_ops_def compress_updater_def walkthrough_ops_def
        walkthrough_updater_def wide_params_def)
  show ?thesis unfolding f sum.case using r c lt pf w u by (simp add: e one_particle_N)
qed

subsection \<open>The compression updater\<close>

lemma snap_apply_tuner: "snap (apply_tuner eng tn s) = snap s"
  by (simp add: apply_tuner_def split: prod.splits)

lemma snap_fold_tuner: "snap (fold (apply_tuner eng) tns s) = snap s"
  by (induction tns arbitrary: s) (simp_all add: snap_apply_tuner)

lemma box_integrate: "state_box (integrate eng mc s) = state_box s"
  by (simp add: integrate_def state_box_def split: prod.splits)

lemma moves_integrate: "move_d (integrate eng mc s) = move_d s" "move_a (integrate eng mc s) = move_a s"
  by (simp_all add: integrate_def split: prod.splits)

lemma moves_quick_compress_step:
  "move_d (quick_compress_step eng mc qc s) = move_d s"
  "move_a (quick_compress_step eng mc qc s) = move_a s"
  by (simp_all add: quick_compress_step_def Let_def)

lemma quick_compress_step_skip:
  "count_overlaps eng mc (snap s) \<noteq> 0 \<Longrightarrow> quick_compress_step eng mc qc s = s"
  by (simp add: quick_compress_step_def)

lemma quick_compress_step_at_target:
  "state_box s = target_box qc \<Longrightarrow> quick_compress_step eng mc qc s = s"
  by (simp add: quick_compress_step_def)

lemma quick_compress_step_volume:
  assumes "count_overlaps eng mc (snap s) = 0" "state_box s \<noteq> target_box qc"
    and "volume (state_box s) \<noteq> 0"
  shows "volume (state_box (quick_compress_step eng mc qc s)) =
     candidate_volume (draw_scale eng (qc_seed qc) (timestep s))
       (volume (state_box s)) (volume (target_box qc))"
  using assms by (auto simp: quick_compress_step_def Let_def state_box_def volume_set_volume)

lemma box_sim_step_single:
  assumes "updaters ops = [qc]"
  shows "state_box (sim_step eng ops s) =
     state_box (apply_updater eng (op_integrator ops) qc (fold (apply_tuner eng) (tuners ops) s))"
  using box_integrate [of eng "op_integrator ops"
      "apply_updater eng (op_integrator ops) qc (fold (apply_tuner eng) (tuners ops) s)"]
  by (simp add: sim_step_def Let_def assms state_box_def)

text \<open>
  Claim C5. On a trigger tick at which the overlap count is not zero the controller leaves
  the state, and with it the box, unchanged, and so does the whole time step; the box
  changes only from a state with zero overlaps, on a tick of the trigger.
\<close>

theorem skip_when_overlaps:
  "(count_overlaps eng mc (snap s) \<noteq> 0 \<longrightarrow>
      quick_compress_step eng mc qc s = s \<and> apply_updater eng mc qc s = s)
   \<and> (state_box (quick_compress_step eng mc qc s) \<noteq> state_box s \<longrightarrow>
        count_overlaps eng mc (snap s) = 0)
   \<and> (volume (state_box (apply_updater eng mc qc s)) \<noteq> volume (state_box s) \<longrightarrow>
        count_overlaps eng mc (snap s) = 0 \<and> fires (qc_trigger qc) (timestep s))
   \<and> (updaters ops = [qc] \<and> count_overlaps eng (op_integrator ops) (snap s) \<noteq> 0 \<longrightarrow>
        state_box (sim_step eng ops s) = state_box s)"
proof (intro conjI impI)
  assume "count_overlaps eng mc (snap s) \<noteq> 0"
  then show "quick_compress_step eng mc qc s = s" by (rule quick_compress_step_skip)
  then show "apply_updater eng mc qc s = s" by (simp add: apply_updater_def)
next
  assume "state_box (quick_compress_step eng mc qc s) \<noteq> state_box s"
  then show "count_overlaps eng mc (snap s) = 0"
    using quick_compress_step_skip [of eng mc s qc] by metis
next
  assume h: "volume (state_box (apply_updater eng mc qc s)) \<noteq> volume (state_box s)"
  then show "count_overlaps eng mc (snap s) = 0"
    using quick_compress_step_skip [of eng mc s qc] by (cases "count_overlaps eng mc (snap s) = 0") (auto simp: apply_updater_def split: if_splits)
  from h show "fires (qc_trigger qc) (timestep s)"
    by (auto simp: apply_updater_def split: if_splits)
next
  assume h: "updaters ops = [qc] \<and> count_overlaps eng (op_integrator ops) (snap s) \<noteq> 0"
  let ?s1 = "fold (apply_tuner eng) (tuners ops) s"
  have "count_overlaps eng (op_integrator ops) (snap ?s1) \<noteq> 0" using h by (simp add: snap_fold_tuner)
  then have eq: "apply_updater eng (op_integrator ops) qc ?s1 = ?s1"
    by (simp add: apply_updater_def quick_compress_step_skip)
  from h have u: "updaters ops = [qc]" by simp
  have "state_box (sim_step eng ops s) = state_box (apply_updater eng (op_integrator ops) qc ?s1)"
    by (rule box_sim_step_single [OF u])
  also have "\<dots> = state_box ?s1" by (simp only: eq)
  also have "\<dots> = state_box s" by (simp add: state_box_def snap_fold_tuner)
  finally show "state_box (sim_step eng ops s) = state_box s" .
qed

theorem skip_when_overlaps_witness:
  "count_overlaps (frozen_engine 1) tutorial_integrator (snap one_particle_sim) \<noteq> 0
   \<and> quick_compress_step (frozen_engine 1) tutorial_integrator (tutorial_updater (cube 5))
        one_particle_sim = one_particle_sim
   \<and> updaters (tutorial_ops (cube 5)) = [tutorial_updater (cube 5)]
   \<and> state_box (sim_step (frozen_engine 1) (tutorial_ops (cube 5)) one_particle_sim)
        = state_box one_particle_sim
   \<and> state_box (quick_compress_step (frozen_engine 0) tutorial_integrator
        (tutorial_updater (cube 5)) one_particle_sim) \<noteq> state_box one_particle_sim
   \<and> volume (state_box (apply_updater (frozen_engine 0) tutorial_integrator
        (tutorial_updater (cube 5)) one_particle_sim)) \<noteq> volume (state_box one_particle_sim)
   \<and> count_overlaps (frozen_engine 0) tutorial_integrator (snap one_particle_sim) = 0
   \<and> fires (qc_trigger (tutorial_updater (cube 5))) (timestep one_particle_sim)"
proof -
  have a1: "count_overlaps (frozen_engine 1) tutorial_integrator (snap one_particle_sim) \<noteq> 0"
    by (simp add: frozen_engine_def)
  have a2: "updaters (tutorial_ops (cube 5)) = [tutorial_updater (cube 5)]"
    by (simp add: tutorial_ops_def)
  have a3: "count_overlaps (frozen_engine 1) (op_integrator (tutorial_ops (cube 5)))
      (snap one_particle_sim) \<noteq> 0"
    by (simp add: frozen_engine_def)
  have z: "count_overlaps (frozen_engine 0) tutorial_integrator (snap one_particle_sim) = 0"
    by (simp add: frozen_engine_def)
  have f: "fires (qc_trigger (tutorial_updater (cube 5))) (timestep one_particle_sim)"
    by (simp add: tutorial_updater_def one_particle_sim_def)
  have ne: "state_box one_particle_sim \<noteq> target_box (tutorial_updater (cube 5))"
    by (simp add: one_particle_box tutorial_updater_def cube_def box_of_list_def)
  have nz: "volume (state_box one_particle_sim) \<noteq> 0"
    by (simp add: one_particle_box volume_cube_numeral)
  have v: "volume (state_box (quick_compress_step (frozen_engine 0) tutorial_integrator
        (tutorial_updater (cube 5)) one_particle_sim)) = 990"
    unfolding quick_compress_step_volume [OF z ne nz]
    by (simp add: frozen_engine_def tutorial_updater_def one_particle_box volume_cube_numeral
        candidate_volume_def)
  have g: "state_box (quick_compress_step (frozen_engine 0) tutorial_integrator
        (tutorial_updater (cube 5)) one_particle_sim) \<noteq> state_box one_particle_sim"
  proof
    assume "state_box (quick_compress_step (frozen_engine 0) tutorial_integrator
        (tutorial_updater (cube 5)) one_particle_sim) = state_box one_particle_sim"
    then have "volume (state_box (quick_compress_step (frozen_engine 0) tutorial_integrator
        (tutorial_updater (cube 5)) one_particle_sim)) = volume (state_box one_particle_sim)"
      by simp
    then show False unfolding v by (simp add: one_particle_box volume_cube_numeral)
  qed
  from v have b: "volume (state_box (apply_updater (frozen_engine 0) tutorial_integrator
        (tutorial_updater (cube 5)) one_particle_sim)) \<noteq> volume (state_box one_particle_sim)"
    using f by (simp add: apply_updater_def one_particle_box volume_cube_numeral)
  from skip_when_overlaps [of "frozen_engine 1" tutorial_integrator one_particle_sim
      "tutorial_updater (cube 5)" "tutorial_ops (cube 5)"] a1 a2 a3
  have c: "quick_compress_step (frozen_engine 1) tutorial_integrator (tutorial_updater (cube 5))
        one_particle_sim = one_particle_sim"
    and d: "state_box (sim_step (frozen_engine 1) (tutorial_ops (cube 5)) one_particle_sim)
        = state_box one_particle_sim" by blast+
  from skip_when_overlaps [of "frozen_engine 0" tutorial_integrator one_particle_sim
      "tutorial_updater (cube 5)" "tutorial_ops (cube 5)"] b g
  have e: "count_overlaps (frozen_engine 0) tutorial_integrator (snap one_particle_sim) = 0
      \<and> fires (qc_trigger (tutorial_updater (cube 5))) (timestep one_particle_sim)" by blast
  from a1 a2 b c d e g show ?thesis by blast
qed

lemma candidate_volume_compress:
  "vt \<le> v \<Longrightarrow> vt \<le> candidate_volume sc v vt \<and> candidate_volume sc v vt \<le> v"
  by (simp add: candidate_volume_def)

lemma candidate_volume_expand:
  "v \<le> vt \<Longrightarrow> v \<le> candidate_volume sc v vt \<and> candidate_volume sc v vt \<le> vt"
  by (auto simp: candidate_volume_def)

lemma volume_quick_compress_step:
  assumes "volume (state_box s) \<noteq> 0"
  shows "volume (state_box (quick_compress_step eng mc qc s)) = volume (state_box s)
       \<or> volume (state_box (quick_compress_step eng mc qc s)) =
           candidate_volume (draw_scale eng (qc_seed qc) (timestep s))
             (volume (state_box s)) (volume (target_box qc))"
  using assms
  by (auto simp: quick_compress_step_def Let_def state_box_def volume_set_volume)

lemma volume_apply_updater_compress:
  assumes "volume (target_box qc) \<le> volume (state_box s)" "volume (state_box s) \<noteq> 0"
  shows "volume (target_box qc) \<le> volume (state_box (apply_updater eng mc qc s))
       \<and> volume (state_box (apply_updater eng mc qc s)) \<le> volume (state_box s)"
  using volume_quick_compress_step [OF assms(2), of eng mc qc]
    candidate_volume_compress [OF assms(1), of "draw_scale eng (qc_seed qc) (timestep s)"] assms(1)
  by (auto simp: apply_updater_def)

lemma volume_apply_updater_expand:
  assumes "volume (state_box s) \<le> volume (target_box qc)" "volume (state_box s) \<noteq> 0"
  shows "volume (state_box s) \<le> volume (state_box (apply_updater eng mc qc s))
       \<and> volume (state_box (apply_updater eng mc qc s)) \<le> volume (target_box qc)"
  using volume_quick_compress_step [OF assms(2), of eng mc qc]
    candidate_volume_expand [OF assms(1), of "draw_scale eng (qc_seed qc) (timestep s)"] assms(1)
  by (auto simp: apply_updater_def)

lemma volume_sim_step_compress:
  assumes "updaters ops = [qc]"
    and "volume (target_box qc) \<le> volume (state_box s)" "volume (state_box s) \<noteq> 0"
  shows "volume (target_box qc) \<le> volume (state_box (sim_step eng ops s))
       \<and> volume (state_box (sim_step eng ops s)) \<le> volume (state_box s)"
proof -
  let ?s1 = "fold (apply_tuner eng) (tuners ops) s"
  have b: "state_box ?s1 = state_box s" by (simp add: state_box_def snap_fold_tuner)
  from volume_apply_updater_compress [of qc ?s1 eng "op_integrator ops"] assms(2,3)
  show ?thesis unfolding box_sim_step_single [OF assms(1)] b by simp
qed

lemma volume_sim_step_expand:
  assumes "updaters ops = [qc]"
    and "volume (state_box s) \<le> volume (target_box qc)" "volume (state_box s) \<noteq> 0"
  shows "volume (state_box s) \<le> volume (state_box (sim_step eng ops s))
       \<and> volume (state_box (sim_step eng ops s)) \<le> volume (target_box qc)"
proof -
  let ?s1 = "fold (apply_tuner eng) (tuners ops) s"
  have b: "state_box ?s1 = state_box s" by (simp add: state_box_def snap_fold_tuner)
  from volume_apply_updater_expand [of ?s1 qc eng "op_integrator ops"] assms(2,3)
  show ?thesis unfolding box_sim_step_single [OF assms(1)] b by simp
qed

lemma run_compress_invariant:
  assumes "updaters ops = [qc]" "0 < volume (target_box qc)"
    and "volume (target_box qc) \<le> volume (state_box s0)"
  shows "volume (target_box qc) \<le> volume (state_box (run_steps eng ops k s0))"
proof (induction k)
  case 0
  show ?case using assms(3) by simp
next
  case (Suc k)
  then have "volume (state_box (run_steps eng ops k s0)) \<noteq> 0" using assms(2) by simp
  from volume_sim_step_compress [OF assms(1) Suc this, of eng] show ?case by simp
qed

lemma run_expand_invariant:
  assumes "updaters ops = [qc]" "0 < volume (state_box s0)"
    and "volume (state_box s0) \<le> volume (target_box qc)"
  shows "0 < volume (state_box (run_steps eng ops k s0))
       \<and> volume (state_box (run_steps eng ops k s0)) \<le> volume (target_box qc)"
proof (induction k)
  case 0
  show ?case using assms(2,3) by simp
next
  case (Suc k)
  then have nz: "volume (state_box (run_steps eng ops k s0)) \<noteq> 0" by simp
  from Suc have le: "volume (state_box (run_steps eng ops k s0)) \<le> volume (target_box qc)" by simp
  from volume_sim_step_expand [OF assms(1) le nz, of eng] Suc show ?case by simp
qed

text \<open>
  Claim C4. Along a run with the compression updater, towards a smaller target the box
  volumes never increase and never fall below the target volume; towards a larger target
  they never decrease and never exceed it.
\<close>

theorem volume_monotone:
  assumes "updaters ops = [qc]"
    and "0 < volume (target_box qc)" and "0 < volume (state_box s0)"
  shows "(volume (target_box qc) \<le> volume (state_box s0) \<longrightarrow>
           (\<forall>k. volume (target_box qc) \<le> volume (state_box (run_steps eng ops (Suc k) s0))
              \<and> volume (state_box (run_steps eng ops (Suc k) s0))
                   \<le> volume (state_box (run_steps eng ops k s0))))
       \<and> (volume (state_box s0) \<le> volume (target_box qc) \<longrightarrow>
           (\<forall>k. volume (state_box (run_steps eng ops k s0))
                   \<le> volume (state_box (run_steps eng ops (Suc k) s0))
              \<and> volume (state_box (run_steps eng ops (Suc k) s0)) \<le> volume (target_box qc)))"
proof (intro conjI impI allI)
  fix k
  assume c: "volume (target_box qc) \<le> volume (state_box s0)"
  have inv: "volume (target_box qc) \<le> volume (state_box (run_steps eng ops k s0))"
    by (rule run_compress_invariant [OF assms(1,2) c])
  then have nz: "volume (state_box (run_steps eng ops k s0)) \<noteq> 0" using assms(2) by simp
  from volume_sim_step_compress [OF assms(1) inv nz, of eng]
  show "volume (target_box qc) \<le> volume (state_box (run_steps eng ops (Suc k) s0))"
    and "volume (state_box (run_steps eng ops (Suc k) s0))
           \<le> volume (state_box (run_steps eng ops k s0))" by simp_all
next
  fix k
  assume e: "volume (state_box s0) \<le> volume (target_box qc)"
  from run_expand_invariant [OF assms(1,3) e, of eng k]
  have nz: "volume (state_box (run_steps eng ops k s0)) \<noteq> 0"
    and le: "volume (state_box (run_steps eng ops k s0)) \<le> volume (target_box qc)" by simp_all
  from volume_sim_step_expand [OF assms(1) le nz, of eng]
  show "volume (state_box (run_steps eng ops k s0))
          \<le> volume (state_box (run_steps eng ops (Suc k) s0))"
    and "volume (state_box (run_steps eng ops (Suc k) s0)) \<le> volume (target_box qc)" by simp_all
qed

theorem volume_monotone_witness:
  "updaters (tutorial_ops (cube 5)) = [tutorial_updater (cube 5)]
   \<and> 0 < volume (target_box (tutorial_updater (cube 5)))
   \<and> 0 < volume (state_box one_particle_sim)
   \<and> volume (target_box (tutorial_updater (cube 5))) \<le> volume (state_box one_particle_sim)
   \<and> volume (target_box (tutorial_updater (cube 5)))
        \<le> volume (state_box (run_steps (frozen_engine 0) (tutorial_ops (cube 5)) (Suc 0)
              one_particle_sim))
   \<and> volume (state_box (run_steps (frozen_engine 0) (tutorial_ops (cube 5)) (Suc 0)
              one_particle_sim)) \<le> volume (state_box one_particle_sim)
   \<and> updaters (tutorial_ops (cube 20)) = [tutorial_updater (cube 20)]
   \<and> 0 < volume (target_box (tutorial_updater (cube 20)))
   \<and> volume (state_box one_particle_sim) \<le> volume (target_box (tutorial_updater (cube 20)))
   \<and> volume (state_box one_particle_sim)
        \<le> volume (state_box (run_steps (frozen_engine 0) (tutorial_ops (cube 20)) (Suc 0)
              one_particle_sim))
   \<and> volume (state_box (run_steps (frozen_engine 0) (tutorial_ops (cube 20)) (Suc 0)
              one_particle_sim)) \<le> volume (target_box (tutorial_updater (cube 20)))"
proof -
  have u5: "updaters (tutorial_ops (cube 5)) = [tutorial_updater (cube 5)]"
    and u20: "updaters (tutorial_ops (cube 20)) = [tutorial_updater (cube 20)]"
    by (simp_all add: tutorial_ops_def)
  have t5: "0 < volume (target_box (tutorial_updater (cube 5)))"
    and t20: "0 < volume (target_box (tutorial_updater (cube 20)))"
    by (simp_all add: tutorial_updater_def volume_cube_numeral)
  have v0: "0 < volume (state_box one_particle_sim)"
    by (simp add: one_particle_box volume_cube_numeral)
  have c: "volume (target_box (tutorial_updater (cube 5))) \<le> volume (state_box one_particle_sim)"
    and e: "volume (state_box one_particle_sim) \<le> volume (target_box (tutorial_updater (cube 20)))"
    by (simp_all add: tutorial_updater_def one_particle_box volume_cube_numeral)
  from volume_monotone [OF u5 t5 v0, of "frozen_engine 0"] c
  have r5: "volume (target_box (tutorial_updater (cube 5)))
        \<le> volume (state_box (run_steps (frozen_engine 0) (tutorial_ops (cube 5)) (Suc 0)
              one_particle_sim))
    \<and> volume (state_box (run_steps (frozen_engine 0) (tutorial_ops (cube 5)) (Suc 0)
              one_particle_sim))
        \<le> volume (state_box (run_steps (frozen_engine 0) (tutorial_ops (cube 5)) 0
              one_particle_sim))" by blast
  from volume_monotone [OF u20 t20 v0, of "frozen_engine 0"] e
  have r20: "volume (state_box (run_steps (frozen_engine 0) (tutorial_ops (cube 20)) 0
              one_particle_sim))
        \<le> volume (state_box (run_steps (frozen_engine 0) (tutorial_ops (cube 20)) (Suc 0)
              one_particle_sim))
    \<and> volume (state_box (run_steps (frozen_engine 0) (tutorial_ops (cube 20)) (Suc 0)
              one_particle_sim)) \<le> volume (target_box (tutorial_updater (cube 20)))" by blast
  have r0: "run_steps (frozen_engine 0) ops 0 one_particle_sim = one_particle_sim" for ops
    by simp
  from u5 u20 t5 t20 v0 c e r5 r20 show ?thesis unfolding r0 by blast
qed

subsection \<open>The driver loop and the completion check\<close>

lemma compress_loop_exit:
  "compress_complete eng (op_integrator ops) qc (compress_loop eng ops qc budget s)
   \<or> budget \<le> timestep (compress_loop eng ops qc budget s)"
proof (induction eng ops qc budget s rule: compress_loop.induct)
  case (1 eng ops qc budget s)
  show ?case
  proof (cases "\<not> compress_complete eng (op_integrator ops) qc s \<and> timestep s < budget")
    case True
    have "compress_loop eng ops qc budget s
        = compress_loop eng ops qc budget (run_steps eng ops 1000 s)"
      using True by (subst compress_loop.simps) simp
    with "1.IH" [OF True] show ?thesis by simp
  next
    case False
    have "compress_loop eng ops qc budget s = s"
      using False by (subst compress_loop.simps) auto
    with False show ?thesis by auto
  qed
qed

lemma compress_loop_done:
  "compress_complete eng (op_integrator ops) qc s \<Longrightarrow> compress_loop eng ops qc budget s = s"
  by (subst compress_loop.simps) simp

lemma compress_loop_no_budget:
  "budget \<le> timestep s \<Longrightarrow> compress_loop eng ops qc budget s = s"
  by (subst compress_loop.simps) simp

text \<open>
  Claim C8. At the target box with no overlaps the compression check changes nothing: the
  controller's tick and the updater return the state as it is, \<^verbatim>\<open>complete\<close> is and stays
  true, and the driver loop returns at once.
\<close>

theorem compression_check_idempotent:
  assumes "state_box s = target_box qc" and "count_overlaps eng mc (snap s) = 0"
  shows "quick_compress_step eng mc qc s = s
       \<and> apply_updater eng mc qc s = s
       \<and> compress_complete eng mc qc s
       \<and> compress_complete eng mc qc (quick_compress_step eng mc qc s)
       \<and> compress_loop eng (ops\<lparr>op_integrator := mc\<rparr>) qc budget s = s"
proof -
  have q: "quick_compress_step eng mc qc s = s"
    using assms(1) by (rule quick_compress_step_at_target)
  have c: "compress_complete eng mc qc s" using assms by (simp add: compress_complete_def)
  have l: "compress_loop eng (ops\<lparr>op_integrator := mc\<rparr>) qc budget s = s"
    using c by (intro compress_loop_done) simp
  show ?thesis using q c l by (simp add: apply_updater_def)
qed

theorem compression_check_idempotent_witness:
  "state_box one_particle_sim = target_box (tutorial_updater (cube 10))
   \<and> count_overlaps (frozen_engine 0) tutorial_integrator (snap one_particle_sim) = 0
   \<and> quick_compress_step (frozen_engine 0) tutorial_integrator (tutorial_updater (cube 10))
        one_particle_sim = one_particle_sim
   \<and> compress_complete (frozen_engine 0) tutorial_integrator (tutorial_updater (cube 10))
        one_particle_sim
   \<and> compress_loop (frozen_engine 0) (tutorial_ops (cube 10)) (tutorial_updater (cube 10))
        1000000 one_particle_sim = one_particle_sim"
proof -
  have h1: "state_box one_particle_sim = target_box (tutorial_updater (cube 10))"
    by (simp add: state_box_def one_particle_sim_def one_particle_def tutorial_updater_def)
  have h2: "count_overlaps (frozen_engine 0) tutorial_integrator (snap one_particle_sim) = 0"
    by (simp add: frozen_engine_def)
  have o: "(tutorial_ops (cube 10))\<lparr>op_integrator := tutorial_integrator\<rparr> = tutorial_ops (cube 10)"
    by (simp add: tutorial_ops_def)
  from compression_check_idempotent [OF h1 h2, of "tutorial_ops (cube 10)" 1000000] h1 h2
  show ?thesis unfolding o by simp
qed

subsection \<open>Target validation and the failure check of the drivers\<close>

lemma compress_setup_raises:
  assumes "create_state_from_gsd eng fs ''random.gsd'' = Inr s0"
    and "final_box (float_pow eng) (cube_degenerate eng) p (particles_N (snap s0)) = Inl e"
  shows "compress eng p fs = Inl e"
  by (simp add: compress_def assms and_then_def)

lemma compress_setup_passes:
  assumes "create_state_from_gsd eng fs ''random.gsd'' = Inr s0"
    and "final_box (float_pow eng) (cube_degenerate eng) p (particles_N (snap s0)) = Inr fb"
  shows "compress eng p fs = Inl (RuntimeError ''Compression failed to complete'')
       \<or> compress eng p fs =
           Inr (gsd_write (compress_loop eng (compress_ops p fb) (compress_updater p fb) 50000 s0)
                 ''compressed.gsd'' fs)"
  by (simp add: compress_def assms and_then_def Let_def)

text \<open>
  Claim C7, as stated, fails: for the reduced density 5 the target box is smaller than the
  particle, a packing fraction above 1, and the setup of \<^verbatim>\<open>compress\<close> raises nothing
  and builds the target box; with an engine whose overlaps never clear, the only error of
  the run is the one raised by the check after the stepping loop. For a negative reduced
  density the target volume is negative, and \<^verbatim>\<open>compress\<close> itself checks nothing: with a
  library that takes any edge, the run again fails only after the stepping loop.
\<close>

theorem invalid_targets_accepted:
  "(case final_box (float_pow (frozen_engine 1)) (cube_degenerate (frozen_engine 1)) dense_params
           (particles_N (snap one_particle_sim)) of
      Inl e \<Rightarrow> False
    | Inr b \<Rightarrow> 1 < packing_fraction 1 (spherocylinder_volume 1 4) (volume b))
   \<and> 1 < rho_star dense_params
   \<and> create_state_from_gsd (frozen_engine 1) random_files ''random.gsd'' = Inr one_particle_sim
   \<and> compress (frozen_engine 1) dense_params random_files
       = Inl (RuntimeError ''Compression failed to complete'')
   \<and> rho_star negative_density_params < 0
   \<and> (case box_V negative_density_params (particles_N (snap one_particle_sim)) of
        Inr (Fin u) \<Rightarrow> u < 0
      | _ \<Rightarrow> False)
   \<and> create_state_from_gsd lenient_engine random_files ''random.gsd'' = Inr one_particle_sim
   \<and> compress lenient_engine negative_density_params random_files
       = Inl (RuntimeError ''Compression failed to complete'')"
proof -
  from dense_box obtain v where v: "box_V dense_params 1 = Inr (Fin v)" "0 < v" "v \<le> 1" by blast
  have f: "final_box (float_pow (frozen_engine k)) (cube_degenerate (frozen_engine k))
      dense_params (particles_N (snap one_particle_sim)) = Inr (cube (real_pow v third))" for k
    unfolding frozen_pow one_particle_N using v(1,2) real_pow_pos [OF v(2)]
    by (rule final_box_accepts)
  note vol = pow_third_cube_le_one [OF v(2,3)]
  have "volume (cube (real_pow v third)) < spherocylinder_volume 1 4"
    using vol(2) spherocylinder_volume_1_4 by linarith
  with vol(1) have pf: "1 < packing_fraction 1 (spherocylinder_volume 1 4)
      (volume (cube (real_pow v third)))" by (rule packing_fraction_above_one)
  note c = create_random_files [of "Suc 0"]
  note c1 = create_random_files [of 1]
  have "compress (frozen_engine (Suc 0)) dense_params random_files
       = Inl (RuntimeError ''Compression failed to complete'')"
    by (simp add: compress_def c f and_then_def never_complete Let_def)
  then have a: "compress (frozen_engine 1) dense_params random_files
       = Inl (RuntimeError ''Compression failed to complete'')" by simp
  have r: "1 < rho_star dense_params" by (simp add: dense_params_def)
  have nr: "rho_star negative_density_params < 0" by (simp add: negative_density_params_def)
  have "\<exists>u. box_V negative_density_params 1 = Inr (Fin u)
      \<and> (0 < rho_star negative_density_params \<longrightarrow> 0 < u)
      \<and> (rho_star negative_density_params < 0 \<longrightarrow> u < 0)"
    by (rule box_V_safe) (simp_all add: negative_density_params_def powr_minus_divide)
  with nr obtain u where u: "box_V negative_density_params 1 = Inr (Fin u)" "u < 0" by blast
  have nu: "\<not> positive_float (Fin u)" using u(2) by (simp add: positive_float_def)
  have g: "final_box (float_pow lenient_engine) (cube_degenerate lenient_engine)
      negative_density_params (particles_N (snap one_particle_sim)) = Inr (cube 1)"
    unfolding one_particle_N
    using final_box_degenerate(1) [OF u(1) nu, where pw = "float_pow lenient_engine"
        and oc = "cube_degenerate lenient_engine"]
    by (simp add: lenient_engine_def)
  have cl: "create_state_from_gsd lenient_engine random_files ''random.gsd''
      = Inr one_particle_sim"
    by (simp add: create_state_from_gsd_def random_files_def frozen_engine_def
        lenient_engine_def one_particle_sim_def one_particle_def)
  have nc: "\<not> compress_complete lenient_engine mc qc s" for mc qc s
    by (simp add: compress_complete_def lenient_engine_def frozen_engine_def)
  have b: "compress lenient_engine negative_density_params random_files
       = Inl (RuntimeError ''Compression failed to complete'')"
    by (simp add: compress_def cl g and_then_def nc Let_def)
  have bv: "(case box_V negative_density_params (particles_N (snap one_particle_sim)) of
        Inr (Fin u) \<Rightarrow> u < 0
      | _ \<Rightarrow> False)"
    unfolding one_particle_N u(1) using u(2) by simp
  have dv: "(case final_box (float_pow (frozen_engine 1)) (cube_degenerate (frozen_engine 1))
           dense_params (particles_N (snap one_particle_sim)) of
      Inl e \<Rightarrow> False
    | Inr b \<Rightarrow> 1 < packing_fraction 1 (spherocylinder_volume 1 4) (volume b))"
    unfolding f sum.case using pf .
  from dv r c1 a nr bv cl b show ?thesis by (simp only: simp_thms)
qed

text \<open>
  Claim C7, amended. The setup of \<^verbatim>\<open>compress\<close> checks nothing itself; with a particle
  count that converts to a float, an invalid target is met at setup time, before any
  stepping, in two ways only. An error of the float arithmetic is the error of the setup:
  a density that is zero as a float (\<open>rho_star = 0\<close> at a positive diameter and a
  nonnegative length, or a product \<open>rho_c * rho_star\<close> that underflows) raises
  \<^verbatim>\<open>ZeroDivisionError\<close> in \<^verbatim>\<open>box_V = N / rho\<close>, and no other density raises there. Any
  other target volume that is not a positive finite float (zero, negative, infinite,
  \<^verbatim>\<open>nan\<close>: the cases of a target volume or packing fraction \<open>\<le> 0\<close>) gives
  \<^verbatim>\<open>hoomd.Box.cube\<close> an edge that is not a positive finite float, and the setup fails
  exactly when the library rejects that edge, with the library's error. Every positive
  finite target volume is accepted, whatever its packing fraction, also one above 1: the
  run starts stepping and can then fail only by the check after the loop. For \<open>D\<close> and
  \<open>\<bar>rho_star\<bar>\<close> from \<open>2\<^sup>-\<^sup>3\<^sup>0\<^sup>0\<close> to \<open>2\<^sup>3\<^sup>0\<^sup>0\<close>, \<open>L\<close> from 0 to \<open>2\<^sup>3\<^sup>0\<^sup>0\<close> and 1 to
  \<open>2\<^sup>6\<^sup>4\<close> particles the target volume is finite, and positive or negative as
  \<open>rho_star\<close> is.
\<close>

theorem setup_validation:
  assumes st: "create_state_from_gsd eng fs ''random.gsd'' = Inr s0"
    and count: "particles_N (snap s0) \<le> 2 ^ 1023"
    and pw: "\<forall>x. 0 < x \<longrightarrow> 0 < float_pow eng x third"
  shows
    "(0 < D p \<and> 0 \<le> L p \<and> rho_star p = 0 \<longrightarrow> rho p = Inr (Fin 0))
     \<and> (\<forall>e. rho p = Inl e \<longrightarrow> compress eng p fs = Inl e)
     \<and> (rho p = Inr (Fin 0) \<longrightarrow> compress eng p fs = Inl ZeroDivisionError)
     \<and> (\<forall>r. rho p = Inr r \<and> r \<noteq> Fin 0 \<longrightarrow>
           (\<exists>v. box_V p (particles_N (snap s0)) = Inr v))
     \<and> (\<forall>v. box_V p (particles_N (snap s0)) = Inr v \<and> \<not> positive_float v \<longrightarrow>
           \<not> valid_edge (pow_third (float_pow eng) v)
           \<and> final_box (float_pow eng) (cube_degenerate eng) p (particles_N (snap s0))
               = cube_degenerate eng (pow_third (float_pow eng) v)
           \<and> (\<forall>e. cube_degenerate eng (pow_third (float_pow eng) v) = Inl e \<longrightarrow>
                 compress eng p fs = Inl e))
     \<and> (\<forall>v. box_V p (particles_N (snap s0)) = Inr v \<and> positive_float v \<longrightarrow>
           (\<exists>fb. final_box (float_pow eng) (cube_degenerate eng) p (particles_N (snap s0)) = Inr fb
              \<and> (compress eng p fs = Inl (RuntimeError ''Compression failed to complete'')
                 \<or> compress eng p fs =
                     Inr (gsd_write
                       (compress_loop eng (compress_ops p fb) (compress_updater p fb) 50000 s0)
                       ''compressed.gsd'' fs))))
     \<and> (1 / 2 ^ 300 \<le> D p \<and> D p \<le> 2 ^ 300 \<and> 0 \<le> L p \<and> L p \<le> 2 ^ 300
          \<and> 1 / 2 ^ 300 \<le> \<bar>rho_star p\<bar> \<and> \<bar>rho_star p\<bar> \<le> 2 ^ 300
          \<and> 1 \<le> particles_N (snap s0) \<and> particles_N (snap s0) \<le> 2 ^ 64 \<longrightarrow>
           (\<exists>v. box_V p (particles_N (snap s0)) = Inr (Fin v)
              \<and> (0 < rho_star p \<longrightarrow> 0 < v) \<and> (rho_star p < 0 \<longrightarrow> v < 0)))"
proof -
  let ?n = "particles_N (snap s0)"
  let ?fb = "final_box (float_pow eng) (cube_degenerate eng) p ?n"
  have cnt: "real ?n \<le> 2 powr of_int 1023"
    using nat_le_two_powr [OF count] by simp
  have a: "0 < D p \<and> 0 \<le> L p \<and> rho_star p = 0 \<longrightarrow> rho p = Inr (Fin 0)"
    using rho_zero_density by blast
  have a': "\<forall>e. rho p = Inl e \<longrightarrow> compress eng p fs = Inl e"
  proof (intro allI impI)
    fix e assume "rho p = Inl e"
    then have "box_V p ?n = Inl e" by (rule box_V_density_raises)
    then have "?fb = Inl e" by (rule final_box_raises)
    with st show "compress eng p fs = Inl e" by (rule compress_setup_raises)
  qed
  have b: "rho p = Inr (Fin 0) \<longrightarrow> compress eng p fs = Inl ZeroDivisionError"
  proof
    assume "rho p = Inr (Fin 0)"
    then have "box_V p ?n = Inl ZeroDivisionError" using cnt by (rule box_V_zero_density)
    then have "?fb = Inl ZeroDivisionError" by (rule final_box_raises)
    with st show "compress eng p fs = Inl ZeroDivisionError" by (rule compress_setup_raises)
  qed
  have c: "\<forall>r. rho p = Inr r \<and> r \<noteq> Fin 0 \<longrightarrow> (\<exists>v. box_V p ?n = Inr v)"
    using box_V_nonzero [OF _ _ cnt] by blast
  have d: "\<forall>v. box_V p ?n = Inr v \<and> \<not> positive_float v \<longrightarrow>
           \<not> valid_edge (pow_third (float_pow eng) v)
           \<and> ?fb = cube_degenerate eng (pow_third (float_pow eng) v)
           \<and> (\<forall>e. cube_degenerate eng (pow_third (float_pow eng) v) = Inl e \<longrightarrow>
                 compress eng p fs = Inl e)"
  proof (intro allI impI)
    fix v assume h: "box_V p ?n = Inr v \<and> \<not> positive_float v"
    then have bv: "box_V p ?n = Inr v" and np: "\<not> positive_float v" by simp_all
    note f1 = final_box_degenerate(1) [OF bv np, where pw = "float_pow eng"
        and oc = "cube_degenerate eng"]
    note f2 = final_box_degenerate(2) [OF bv np, where pw = "float_pow eng"]
    have "compress eng p fs = Inl e"
      if "cube_degenerate eng (pow_third (float_pow eng) v) = Inl e" for e
      using st by (rule compress_setup_raises) (simp add: f1 that)
    then show "\<not> valid_edge (pow_third (float_pow eng) v)
           \<and> ?fb = cube_degenerate eng (pow_third (float_pow eng) v)
           \<and> (\<forall>e. cube_degenerate eng (pow_third (float_pow eng) v) = Inl e \<longrightarrow>
                 compress eng p fs = Inl e)"
      using f1 f2 by blast
  qed
  have e: "\<forall>v. box_V p ?n = Inr v \<and> positive_float v \<longrightarrow>
           (\<exists>fb. ?fb = Inr fb
              \<and> (compress eng p fs = Inl (RuntimeError ''Compression failed to complete'')
                 \<or> compress eng p fs =
                     Inr (gsd_write
                       (compress_loop eng (compress_ops p fb) (compress_updater p fb) 50000 s0)
                       ''compressed.gsd'' fs)))"
  proof (intro allI impI)
    fix v assume h: "box_V p ?n = Inr v \<and> positive_float v"
    then obtain x where v: "v = Fin x" and x: "0 < x"
      by (cases v) (simp_all add: positive_float_def)
    have px: "0 < float_pow eng x third" using pw x by blast
    have f: "?fb = Inr (cube (float_pow eng x third))"
      using h x px unfolding v by (intro final_box_accepts) simp_all
    from compress_setup_passes [OF st f] f
    show "\<exists>fb. ?fb = Inr fb
              \<and> (compress eng p fs = Inl (RuntimeError ''Compression failed to complete'')
                 \<or> compress eng p fs =
                     Inr (gsd_write
                       (compress_loop eng (compress_ops p fb) (compress_updater p fb) 50000 s0)
                       ''compressed.gsd'' fs))"
      by blast
  qed
  have g: "1 / 2 ^ 300 \<le> D p \<and> D p \<le> 2 ^ 300 \<and> 0 \<le> L p \<and> L p \<le> 2 ^ 300
          \<and> 1 / 2 ^ 300 \<le> \<bar>rho_star p\<bar> \<and> \<bar>rho_star p\<bar> \<le> 2 ^ 300
          \<and> 1 \<le> ?n \<and> ?n \<le> 2 ^ 64 \<longrightarrow>
           (\<exists>v. box_V p ?n = Inr (Fin v)
              \<and> (0 < rho_star p \<longrightarrow> 0 < v) \<and> (rho_star p < 0 \<longrightarrow> v < 0))"
  proof
    assume h: "1 / 2 ^ 300 \<le> D p \<and> D p \<le> 2 ^ 300 \<and> 0 \<le> L p \<and> L p \<le> 2 ^ 300
          \<and> 1 / 2 ^ 300 \<le> \<bar>rho_star p\<bar> \<and> \<bar>rho_star p\<bar> \<le> 2 ^ 300
          \<and> 1 \<le> ?n \<and> ?n \<le> 2 ^ 64"
    have lo: "(2::real) powr of_int (- 300) = 1 / 2 ^ 300"
      using two_powr_neg_nat [of 300] by simp
    have hi: "(2::real) powr of_int 300 = 2 ^ 300"
      using two_powr_nat [of 300] by simp
    have n64: "real ?n \<le> 2 powr of_int 64" using h nat_le_two_powr [of ?n 64] by simp
    show "\<exists>v. box_V p ?n = Inr (Fin v)
              \<and> (0 < rho_star p \<longrightarrow> 0 < v) \<and> (rho_star p < 0 \<longrightarrow> v < 0)"
      using h n64 by (intro box_V_safe) (simp_all only: lo hi)
  qed
  from a a' b c d e g show ?thesis by blast
qed

text \<open>
  The theorem at four parameter sets and a state of one particle: the reduced densities 0
  and \<^verbatim>\<open>5e-324\<close> raise \<^verbatim>\<open>ZeroDivisionError\<close>, the reduced density \<^verbatim>\<open>-0.3\<close> ends in
  the error of the example engine's library, and the reduced density 5 is accepted.
\<close>

theorem setup_validation_witness:
  "create_state_from_gsd (frozen_engine 0) random_files ''random.gsd'' = Inr one_particle_sim
   \<and> 0 < D zero_density_params \<and> 0 \<le> L zero_density_params
   \<and> rho_star zero_density_params = 0
   \<and> compress (frozen_engine 0) zero_density_params random_files = Inl ZeroDivisionError
   \<and> 0 < rho_star tiny_density_params
   \<and> rho tiny_density_params = Inr (Fin 0)
   \<and> compress (frozen_engine 0) tiny_density_params random_files = Inl ZeroDivisionError
   \<and> rho_star negative_density_params < 0
   \<and> compress (frozen_engine 0) negative_density_params random_files = Inl ValueError
   \<and> 1 < rho_star dense_params
   \<and> (compress (frozen_engine 0) dense_params random_files
         = Inl (RuntimeError ''Compression failed to complete'')
       \<or> (\<exists>fs'. compress (frozen_engine 0) dense_params random_files = Inr fs'))"
proof -
  note st = create_random_files [of 0]
  note cnt = one_particle_count
  note pw = frozen_pow_pos [of 0]
  have z: "0 < D zero_density_params" "0 \<le> L zero_density_params"
    "rho_star zero_density_params = 0"
    by (simp_all add: zero_density_params_def)
  have t: "0 < D tiny_density_params" "0 \<le> L tiny_density_params"
    "0 < rho_star tiny_density_params"
    by (simp_all add: tiny_density_params_def)
  have n: "0 < D negative_density_params" "0 \<le> L negative_density_params"
    "rho_star negative_density_params < 0"
    by (simp_all add: negative_density_params_def)
  have d: "0 < D dense_params" "0 \<le> L dense_params" "1 < rho_star dense_params"
    by (simp_all add: dense_params_def)
  have nr: "1 / 2 ^ 300 \<le> D negative_density_params \<and> D negative_density_params \<le> 2 ^ 300
      \<and> 0 \<le> L negative_density_params \<and> L negative_density_params \<le> 2 ^ 300
      \<and> 1 / 2 ^ 300 \<le> \<bar>rho_star negative_density_params\<bar>
      \<and> \<bar>rho_star negative_density_params\<bar> \<le> 2 ^ 300
      \<and> 1 \<le> particles_N (snap one_particle_sim) \<and> particles_N (snap one_particle_sim) \<le> 2 ^ 64"
    by (simp add: negative_density_params_def one_particle_N)
  have dr: "1 / 2 ^ 300 \<le> D dense_params \<and> D dense_params \<le> 2 ^ 300
      \<and> 0 \<le> L dense_params \<and> L dense_params \<le> 2 ^ 300
      \<and> 1 / 2 ^ 300 \<le> \<bar>rho_star dense_params\<bar> \<and> \<bar>rho_star dense_params\<bar> \<le> 2 ^ 300
      \<and> 1 \<le> particles_N (snap one_particle_sim) \<and> particles_N (snap one_particle_sim) \<le> 2 ^ 64"
    by (simp add: dense_params_def one_particle_N)
  from setup_validation [OF st cnt pw] z
  have a: "compress (frozen_engine 0) zero_density_params random_files = Inl ZeroDivisionError"
    by blast
  from setup_validation [OF st cnt pw] tiny_density_rho
  have b: "compress (frozen_engine 0) tiny_density_params random_files = Inl ZeroDivisionError"
    by blast
  note sn = setup_validation [OF st cnt pw]
  from sn nr n(3) obtain v where
    v: "box_V negative_density_params (particles_N (snap one_particle_sim)) = Inr (Fin v)" "v < 0"
    by blast
  have "\<not> positive_float (Fin v)" using v(2) by (simp add: positive_float_def)
  with sn v(1) frozen_degenerate [of 0]
  have c: "compress (frozen_engine 0) negative_density_params random_files = Inl ValueError"
    by blast
  note sd = setup_validation [OF st cnt pw]
  from sd dr d(3) obtain w where
    w: "box_V dense_params (particles_N (snap one_particle_sim)) = Inr (Fin w)" "0 < w"
    by (smt (verit))
  have "positive_float (Fin w)" using w(2) by (simp add: positive_float_def)
  with sd w(1)
  have e: "compress (frozen_engine 0) dense_params random_files
         = Inl (RuntimeError ''Compression failed to complete'')
       \<or> (\<exists>fs'. compress (frozen_engine 0) dense_params random_files = Inr fs')"
    by blast
  from st z t n d a b c e tiny_density_rho show ?thesis by blast
qed

text \<open>
  Claim C2 at a run whose compression never completes: the homework's \<^verbatim>\<open>compress\<close> and
  the tutorial's cells raise \<^verbatim>\<open>RuntimeError\<close>, the walk-through's cell returns normally
  and has written \<^verbatim>\<open>compressed.gsd\<close>.
\<close>

theorem walkthrough_writes_unfinished:
  "compress (frozen_engine 1) walkthrough_params random_files
     = Inl (RuntimeError ''Compression failed to complete'')
   \<and> tutorial_compress (frozen_engine 1) random_files
     = Inl (RuntimeError ''Compression failed to complete'')
   \<and> \<not> isl (walkthrough_compress (frozen_engine 1) walkthrough_params random_files)
   \<and> (case walkthrough_compress (frozen_engine 1) walkthrough_params random_files of
         Inl e \<Rightarrow> False
       | Inr fs \<Rightarrow> fs ''compressed.gsd'' \<noteq> None)"
proof -
  have "\<exists>v. box_V walkthrough_params 1 = Inr (Fin v)
      \<and> (0 < rho_star walkthrough_params \<longrightarrow> 0 < v)
      \<and> (rho_star walkthrough_params < 0 \<longrightarrow> v < 0)"
    by (rule box_V_safe) (simp_all add: walkthrough_params_def powr_minus_divide)
  then obtain v where v: "box_V walkthrough_params 1 = Inr (Fin v)" "0 < v"
    by (auto simp: walkthrough_params_def)
  have f: "final_box (float_pow (frozen_engine (Suc 0))) (cube_degenerate (frozen_engine (Suc 0)))
      walkthrough_params (particles_N (snap one_particle_sim)) = Inr (cube (real_pow v third))"
    unfolding frozen_pow one_particle_N using v real_pow_pos [OF v(2)]
    by (rule final_box_accepts)
  note c = create_random_files [of "Suc 0"]
  have a: "compress (frozen_engine (Suc 0)) walkthrough_params random_files
     = Inl (RuntimeError ''Compression failed to complete'')"
    by (simp add: compress_def c f and_then_def never_complete Let_def)
  have b: "tutorial_compress (frozen_engine (Suc 0)) random_files
     = Inl (RuntimeError ''Compression failed to complete'')"
    unfolding tutorial_compress_def c and_then_def by (simp add: never_complete Let_def)
  have "\<exists>s::unit sim. walkthrough_compress (frozen_engine (Suc 0)) walkthrough_params random_files
     = Inr (gsd_write s ''compressed.gsd'' random_files)"
    by (simp add: walkthrough_compress_def c f and_then_def Let_def) blast
  then obtain s :: "unit sim" where w: "walkthrough_compress (frozen_engine (Suc 0)) walkthrough_params random_files
     = Inr (gsd_write s ''compressed.gsd'' random_files)" by blast
  have one: "frozen_engine 1 = frozen_engine (Suc 0)" by simp
  show ?thesis unfolding one w using a b by (simp add: gsd_write_def)
qed

subsection \<open>The move size tuner of an equilibration run\<close>

lemma fires_equilibrate_trigger:
  "fires (equilibrate_trigger t0) t \<longleftrightarrow> t mod 100 = 0 \<and> t < t0 + 5000"
  by (simp add: equilibrate_trigger_def)

lemma moves_apply_tuner_idle:
  "\<not> fires (tune_trigger tn) (timestep s) \<Longrightarrow> apply_tuner eng tn s = s"
  by (simp add: apply_tuner_def)

lemma moves_sim_step_equilibrate:
  assumes "t0 + 5000 \<le> timestep s"
  shows "move_d (sim_step eng (equilibrate_ops mc t0) s) = move_d s
       \<and> move_a (sim_step eng (equilibrate_ops mc t0) s) = move_a s"
proof -
  have "\<not> fires (tune_trigger (equilibrate_tuner t0)) (timestep s)"
    using assms by (simp add: equilibrate_tuner_def fires_equilibrate_trigger)
  then have "apply_tuner eng (equilibrate_tuner t0) s = s" by (rule moves_apply_tuner_idle)
  then show ?thesis
    by (simp add: sim_step_def Let_def equilibrate_ops_def moves_integrate)
qed

lemma moves_run_equilibrate:
  assumes "timestep s0 = t0"
  shows "move_d (run_steps eng (equilibrate_ops mc t0) (j + 5000) s0)
           = move_d (run_steps eng (equilibrate_ops mc t0) 5000 s0)
       \<and> move_a (run_steps eng (equilibrate_ops mc t0) (j + 5000) s0)
           = move_a (run_steps eng (equilibrate_ops mc t0) 5000 s0)"
proof (induction j)
  case 0
  show ?case by simp
next
  case (Suc j)
  have "t0 + 5000 \<le> timestep (run_steps eng (equilibrate_ops mc t0) (j + 5000) s0)"
    using assms by (simp add: timestep_run_steps)
  from moves_sim_step_equilibrate [OF this, of eng mc] Suc show ?case
    by (simp only: add_Suc run_steps.simps)
qed

text \<open>
  Claim C6. The tuner of an equilibration run fires exactly on the steps that are a multiple
  of 100 and lie before the starting time step plus 5000; from that step on it never fires,
  and the move sizes \<open>d\<close> and \<open>a\<close> after any later number of steps are those after 5000
  steps.
\<close>

theorem tuner_stops_after_threshold:
  "(fires (tune_trigger (equilibrate_tuner t0)) t \<longleftrightarrow> t mod 100 = 0 \<and> t < t0 + 5000)
   \<and> (t0 + 5000 \<le> t \<longrightarrow> \<not> fires (tune_trigger (equilibrate_tuner t0)) t)
   \<and> (tuners (equilibrate_ops mc t0) = [equilibrate_tuner t0])
   \<and> (timestep s0 = t0 \<and> 5000 \<le> k \<longrightarrow>
        move_d (run_steps eng (equilibrate_ops mc t0) k s0)
          = move_d (run_steps eng (equilibrate_ops mc t0) 5000 s0)
        \<and> move_a (run_steps eng (equilibrate_ops mc t0) k s0)
          = move_a (run_steps eng (equilibrate_ops mc t0) 5000 s0))"
proof (intro conjI impI)
  show "fires (tune_trigger (equilibrate_tuner t0)) t \<longleftrightarrow> t mod 100 = 0 \<and> t < t0 + 5000"
    by (simp add: equilibrate_tuner_def fires_equilibrate_trigger)
  show "\<not> fires (tune_trigger (equilibrate_tuner t0)) t" if "t0 + 5000 \<le> t"
    using that by (simp add: equilibrate_tuner_def fires_equilibrate_trigger)
  show "tuners (equilibrate_ops mc t0) = [equilibrate_tuner t0]"
    by (simp add: equilibrate_ops_def)
next
  assume h: "timestep s0 = t0 \<and> 5000 \<le> k"
  then obtain j where k: "k = j + 5000" using le_Suc_ex [of 5000 k] by (auto simp: add.commute)
  from h have t: "timestep s0 = t0" by simp
  show "move_d (run_steps eng (equilibrate_ops mc t0) k s0)
          = move_d (run_steps eng (equilibrate_ops mc t0) 5000 s0)"
    using moves_run_equilibrate [OF t, of eng mc j] unfolding k by simp
  show "move_a (run_steps eng (equilibrate_ops mc t0) k s0)
          = move_a (run_steps eng (equilibrate_ops mc t0) 5000 s0)"
    using moves_run_equilibrate [OF t, of eng mc j] unfolding k by simp
qed

theorem tuner_stops_after_threshold_witness:
  "fires (tune_trigger (equilibrate_tuner 0)) 4900
   \<and> \<not> fires (tune_trigger (equilibrate_tuner 0)) 4950
   \<and> (0::nat) + 5000 \<le> 5000
   \<and> \<not> fires (tune_trigger (equilibrate_tuner 0)) 5000
   \<and> timestep one_particle_sim = 0 \<and> (5000::nat) \<le> 200000
   \<and> move_d (run_steps (frozen_engine 0) (equilibrate_ops tutorial_integrator 0) 200000
        one_particle_sim)
      = move_d (run_steps (frozen_engine 0) (equilibrate_ops tutorial_integrator 0) 5000
        one_particle_sim)
   \<and> move_a (run_steps (frozen_engine 0) (equilibrate_ops tutorial_integrator 0) 200000
        one_particle_sim)
      = move_a (run_steps (frozen_engine 0) (equilibrate_ops tutorial_integrator 0) 5000
        one_particle_sim)"
proof -
  have t: "timestep one_particle_sim = 0" by (simp add: one_particle_sim_def)
  have k: "(5000::nat) \<le> 200000" by simp
  have l: "(0::nat) + 5000 \<le> 5000" by simp
  from tuner_stops_after_threshold [of 0 4900 tutorial_integrator one_particle_sim 5000 "frozen_engine 0"] have a: "fires (tune_trigger (equilibrate_tuner 0)) 4900"
    by simp
  from tuner_stops_after_threshold [of 0 4950 tutorial_integrator one_particle_sim 5000 "frozen_engine 0"]
  have b: "\<not> fires (tune_trigger (equilibrate_tuner 0)) 4950" by simp
  from tuner_stops_after_threshold [of 0 5000 tutorial_integrator one_particle_sim 5000 "frozen_engine 0"] l
  have c: "\<not> fires (tune_trigger (equilibrate_tuner 0)) 5000" by blast
  from tuner_stops_after_threshold [of 0 0 tutorial_integrator one_particle_sim 200000
      "frozen_engine 0"] t k
  have d: "move_d (run_steps (frozen_engine 0) (equilibrate_ops tutorial_integrator 0) 200000
        one_particle_sim)
      = move_d (run_steps (frozen_engine 0) (equilibrate_ops tutorial_integrator 0) 5000
        one_particle_sim)
   \<and> move_a (run_steps (frozen_engine 0) (equilibrate_ops tutorial_integrator 0) 200000
        one_particle_sim)
      = move_a (run_steps (frozen_engine 0) (equilibrate_ops tutorial_integrator 0) 5000
        one_particle_sim)" by blast
  from a b c d t k l show ?thesis by blast
qed

subsection \<open>The workflow\<close>

lemma create_state_written:
  "create_state_from_gsd eng (gsd_write s name fs) name =
     Inr \<lparr>timestep = timestep s, snap = frame_of s,
          move_d = default_d eng, move_a = default_a eng, mc_internal = mc_init eng\<rparr>"
  by (simp add: create_state_from_gsd_def gsd_write_def frame_of_def)

lemma initialize_result:
  "initialize eng p fs =
     (case initialize_snapshot (float_pow eng) p of Inl e \<Rightarrow> Inl e
      | Inr s \<Rightarrow> Inr (fs(''lattice.gsd'' \<mapsto> [s])))"
  by (simp add: initialize_def and_then_def)

lemma randomize_after_initialize:
  "randomize eng p (fs(''lattice.gsd'' \<mapsto> [s])) =
     Inr (gsd_write (stage_randomize eng p s) ''random.gsd'' (fs(''lattice.gsd'' \<mapsto> [s])))"
  by (simp add: randomize_def and_then_def create_state_from_gsd_def stage_randomize_def)

lemma compress_after_randomize:
  "compress eng p (gsd_write r ''random.gsd'' fs) =
     (case stage_compress eng p r of Inl e \<Rightarrow> Inl e
      | Inr s \<Rightarrow> Inr (gsd_write s ''compressed.gsd'' (gsd_write r ''random.gsd'' fs)))"
  unfolding compress_def create_state_written stage_compress_def
  by (simp add: and_then_def Let_def split: sum.splits)

lemma equilibrate_after_compress:
  "equilibrate eng p (gsd_write c ''compressed.gsd'' fs) =
     Inr ((gsd_write c ''compressed.gsd'' fs)(''trajectory.gsd'' \<mapsto> stage_equilibrate eng p c))"
  unfolding equilibrate_def create_state_written stage_equilibrate_def
  by (simp add: and_then_def Let_def)

lemma run_simulation_result:
  "run_simulation eng p fs =
     (case initialize_snapshot (float_pow eng) p of Inl e \<Rightarrow> Inl e
      | Inr s \<Rightarrow>
         (case stage_compress eng p (stage_randomize eng p s) of Inl e \<Rightarrow> Inl e
          | Inr c \<Rightarrow>
             Inr ((gsd_write c ''compressed.gsd''
                    (gsd_write (stage_randomize eng p s) ''random.gsd''
                      (fs(''lattice.gsd'' \<mapsto> [s]))))
                  (''trajectory.gsd'' \<mapsto> stage_equilibrate eng p c))))"
  unfolding run_simulation_def initialize_result
  by (simp add: and_then_def randomize_after_initialize compress_after_randomize
      equilibrate_after_compress split: sum.splits)

lemma produced_run_simulation:
  "produced (run_simulation eng p fs) =
     (case initialize_snapshot (float_pow eng) p of Inl e \<Rightarrow> Inl e
      | Inr s \<Rightarrow>
         (case stage_compress eng p (stage_randomize eng p s) of Inl e \<Rightarrow> Inl e
          | Inr c \<Rightarrow>
             Inr [Some [s], Some [frame_of (stage_randomize eng p s)], Some [frame_of c],
                  Some (stage_equilibrate eng p c)]))"
  unfolding run_simulation_result
  by (simp add: produced_def gsd_write_def split: sum.splits)

subsection \<open>Engines that agree at the seed of the parameters\<close>

lemma integrate_cong:
  assumes "same_at_seed sd e1 e2" "int_seed mc = sd"
  shows "integrate e1 mc s = integrate e2 mc s"
  using assms by (simp add: integrate_def same_at_seed_def)

lemma apply_tuner_cong:
  assumes "same_at_seed sd e1 e2"
  shows "apply_tuner e1 tn s = apply_tuner e2 tn s"
  using assms by (simp add: apply_tuner_def same_at_seed_def)

lemma fold_tuner_cong:
  assumes "same_at_seed sd e1 e2"
  shows "fold (apply_tuner e1) tns s = fold (apply_tuner e2) tns s"
  by (induction tns arbitrary: s) (simp_all add: apply_tuner_cong [OF assms])

lemma quick_compress_step_cong:
  assumes "same_at_seed sd e1 e2" "qc_seed qc = sd"
  shows "quick_compress_step e1 mc qc s = quick_compress_step e2 mc qc s"
  using assms by (simp add: quick_compress_step_def same_at_seed_def)

lemma apply_updater_cong:
  assumes "same_at_seed sd e1 e2" "qc_seed qc = sd"
  shows "apply_updater e1 mc qc s = apply_updater e2 mc qc s"
  by (simp add: apply_updater_def quick_compress_step_cong [OF assms])

lemma fold_updater_cong:
  assumes "same_at_seed sd e1 e2" "list_all (\<lambda>qc. qc_seed qc = sd) qcs"
  shows "fold (apply_updater e1 mc) qcs s = fold (apply_updater e2 mc) qcs s"
  using assms(2)
  by (induction qcs arbitrary: s) (simp_all add: apply_updater_cong [OF assms(1)])

lemma sim_step_cong:
  assumes "same_at_seed sd e1 e2" "int_seed (op_integrator ops) = sd"
    and "list_all (\<lambda>qc. qc_seed qc = sd) (updaters ops)"
  shows "sim_step e1 ops s = sim_step e2 ops s"
  by (simp add: sim_step_def Let_def fold_tuner_cong [OF assms(1)]
      fold_updater_cong [OF assms(1,3)] integrate_cong [OF assms(1,2)])

lemma run_steps_cong:
  assumes "same_at_seed sd e1 e2" "int_seed (op_integrator ops) = sd"
    and "list_all (\<lambda>qc. qc_seed qc = sd) (updaters ops)"
  shows "run_steps e1 ops n s = run_steps e2 ops n s"
  by (induction n) (simp_all add: sim_step_cong [OF assms])

lemma compress_complete_cong:
  assumes "same_at_seed sd e1 e2"
  shows "compress_complete e1 mc qc s = compress_complete e2 mc qc s"
  using assms by (simp add: compress_complete_def same_at_seed_def)

lemma compress_loop_cong:
  assumes "same_at_seed sd e1 e2" "int_seed (op_integrator ops) = sd"
    and "list_all (\<lambda>qc. qc_seed qc = sd) (updaters ops)"
  shows "compress_loop e1 ops qc budget s = compress_loop e2 ops qc budget s"
  using assms
proof (induction e1 ops qc budget s rule: compress_loop.induct)
  case (1 eng ops qc budget s)
  note r = run_steps_cong [OF "1.prems"]
  note c = compress_complete_cong [OF "1.prems"(1)]
  show ?case
  proof (cases "\<not> compress_complete eng (op_integrator ops) qc s \<and> timestep s < budget")
    case True
    have "compress_loop eng ops qc budget s
        = compress_loop eng ops qc budget (run_steps eng ops 1000 s)"
      using True by (subst compress_loop.simps) simp
    also have "\<dots> = compress_loop e2 ops qc budget (run_steps eng ops 1000 s)"
      using True "1.prems" by (rule "1.IH")
    also have "\<dots> = compress_loop e2 ops qc budget (run_steps e2 ops 1000 s)"
      by (simp only: r)
    also have "\<dots> = compress_loop e2 ops qc budget s"
      using True unfolding c by (subst (2) compress_loop.simps) simp
    finally show ?thesis .
  next
    case False
    have "compress_loop eng ops qc budget s = s"
      using False by (subst compress_loop.simps) auto
    moreover have "compress_loop e2 ops qc budget s = s"
      using False unfolding c by (subst compress_loop.simps) auto
    ultimately show ?thesis by simp
  qed
qed

lemma written_frames_cong:
  assumes "same_at_seed sd e1 e2" "int_seed (op_integrator ops) = sd"
    and "list_all (\<lambda>qc. qc_seed qc = sd) (updaters ops)"
  shows "written_frames e1 ops tr n s = written_frames e2 ops tr n s"
  by (simp add: written_frames_def run_steps_cong [OF assms])

lemma stage_randomize_cong:
  assumes "same_at_seed (seed p) e1 e2"
  shows "stage_randomize e1 p s = stage_randomize e2 p s"
proof -
  have d: "default_d e1 = default_d e2" "default_a e1 = default_a e2" "mc_init e1 = mc_init e2"
    using assms by (simp_all add: same_at_seed_def)
  have "run_steps e1 (randomize_ops p) n s0 = run_steps e2 (randomize_ops p) n s0" for n s0
    using assms
    by (rule run_steps_cong)
       (simp_all add: randomize_ops_def make_hard_spherocylinder_integrator_def)
  then show ?thesis by (simp add: stage_randomize_def d)
qed

lemma stage_compress_cong:
  assumes "same_at_seed (seed p) e1 e2"
  shows "stage_compress e1 p r = stage_compress e2 p r"
proof -
  have d: "default_d e1 = default_d e2" "default_a e1 = default_a e2" "mc_init e1 = mc_init e2"
    "cube_degenerate e1 = cube_degenerate e2" "float_pow e1 = float_pow e2"
    using assms by (simp_all add: same_at_seed_def)
  have l: "compress_loop e1 (compress_ops p fb) (compress_updater p fb) b s0
      = compress_loop e2 (compress_ops p fb) (compress_updater p fb) b s0" for fb b s0
    using assms
    by (rule compress_loop_cong)
       (simp_all add: compress_ops_def compress_updater_def
          make_hard_spherocylinder_integrator_def)
  note c = compress_complete_cong [OF assms]
  show ?thesis by (simp add: stage_compress_def d l c)
qed

lemma stage_equilibrate_cong:
  assumes "same_at_seed (seed p) e1 e2"
  shows "stage_equilibrate e1 p c = stage_equilibrate e2 p c"
proof -
  have d: "default_d e1 = default_d e2" "default_a e1 = default_a e2" "mc_init e1 = mc_init e2"
    using assms by (simp_all add: same_at_seed_def)
  have "written_frames e1 (equilibrate_ops (make_hard_spherocylinder_integrator p) t0) tr n s0
      = written_frames e2 (equilibrate_ops (make_hard_spherocylinder_integrator p) t0) tr n s0"
    for t0 tr n s0
    using assms
    by (rule written_frames_cong)
       (simp_all add: equilibrate_ops_def make_hard_spherocylinder_integrator_def)
  then show ?thesis by (simp add: stage_equilibrate_def d)
qed

subsection \<open>The files of a run\<close>

lemma length_filter_eq_upt: "length (filter (\<lambda>i. i = a) [0..<m]) = (if a < m then 1 else 0)"
  by (induction m) auto

lemma block_1000: "length (filter (\<lambda>k. (t + k) mod 1000 = 0) [b..<b + 1000]) = (1::nat)"
proof -
  define i0 where "i0 = (1000 - (t + b) mod 1000) mod 1000"
  have i0: "i0 < 1000" by (simp add: i0_def)
  have u: "[b..<b + 1000] = map (\<lambda>i. i + b) [0..<1000]"
    by (simp only: map_add_upt add.commute)
  have e: "((t + (i + b)) mod 1000 = 0) = (i = i0)" if "i \<in> set [0..<1000]" for i
  proof -
    have i: "i < 1000" using that by (simp only: set_upt atLeastLessThan_iff)
    define c where "c = (t + b) mod 1000"
    have c: "c < 1000" by (simp add: c_def)
    have "(t + (i + b)) mod 1000 = ((t + b) mod 1000 + i) mod 1000"
      by (simp only: mod_add_left_eq) (simp add: ac_simps)
    then have m: "(t + (i + b)) mod 1000 = (c + i) mod 1000" by (simp only: c_def)
    show ?thesis
    proof (cases "c + i < 1000")
      case True
      then have "(c + i) mod 1000 = c + i" by simp
      moreover have "i0 = (if c = 0 then 0 else 1000 - c)"
        using c by (simp add: i0_def c_def [symmetric])
      ultimately show ?thesis using True m by auto
    next
      case False
      then have "(c + i) mod 1000 = (c + i - 1000) mod 1000" by (simp add: le_mod_geq)
      also have "\<dots> = c + i - 1000" using c i by simp
      finally have "(c + i) mod 1000 = c + i - 1000" .
      moreover have "c \<noteq> 0" using False i by simp
      then have "i0 = 1000 - c" using c by (simp add: i0_def c_def [symmetric])
      ultimately show ?thesis using False m c i by auto
    qed
  qed
  have "filter (\<lambda>k. (t + k) mod 1000 = 0) [b..<b + 1000]
      = map (\<lambda>i. i + b) (filter (\<lambda>i. (t + (i + b)) mod 1000 = 0) [0..<1000])"
    unfolding u by (simp only: filter_map o_def)
  also have "filter (\<lambda>i. (t + (i + b)) mod 1000 = 0) [0..<1000] = filter (\<lambda>i. i = i0) [0..<1000]"
    by (rule filter_cong [OF refl]) (rule e)
  finally have "length (filter (\<lambda>k. (t + k) mod 1000 = 0) [b..<b + 1000])
      = length (filter (\<lambda>i. i = i0) [0..<1000])" by (simp only: length_map)
  then show ?thesis using i0 by (simp only: length_filter_eq_upt if_True)
qed

lemma count_1000: "length (filter (\<lambda>k. (t + k) mod 1000 = 0) [1..<Suc (n * 1000)]) = n"
proof (induction n)
  case 0
  show ?case by simp
next
  case (Suc n)
  have "Suc (Suc n * 1000) = Suc (n * 1000) + 1000" by simp
  then have "[1..<Suc (Suc n * 1000)] = [1..<Suc (n * 1000) + 1000]" by (simp only:)
  also have "\<dots> = [1..<Suc (n * 1000)] @ [Suc (n * 1000)..<Suc (n * 1000) + 1000]"
    by (rule upt_add_eq_append) simp
  finally have "length (filter (\<lambda>k. (t + k) mod 1000 = 0) [1..<Suc (Suc n * 1000)])
      = length (filter (\<lambda>k. (t + k) mod 1000 = 0) [1..<Suc (n * 1000)])
        + length (filter (\<lambda>k. (t + k) mod 1000 = 0) [Suc (n * 1000)..<Suc (n * 1000) + 1000])"
    by (simp only: filter_append length_append)
  then show ?case unfolding Suc block_1000 by simp
qed

lemma length_written_frames:
  "length (written_frames eng ops (Periodic 1000) 200000 s) = 200"
proof -
  have n: "(200000::nat) = 200 * 1000" by simp
  have "length (written_frames eng ops (Periodic 1000) (200 * 1000) s)
      = length (filter (\<lambda>k. (timestep s + k) mod 1000 = 0) [1..<Suc (200 * 1000)])"
    by (simp only: written_frames_def length_map fires.simps)
  then show ?thesis unfolding n by (simp only: count_1000)
qed

lemma length_stage_equilibrate: "length (stage_equilibrate eng p c) = 200"
  by (simp only: stage_equilibrate_def Let_def length_written_frames)

text \<open>
  Claim C10. A run of \<^verbatim>\<open>run_simulation\<close> either fails or leaves the four files: the
  lattice, the last frame of the randomisation, the last frame of the compression, and the
  200 frames of the equilibration. What it produces depends on the parameters and on
  nothing else: not on the files found at the start, and on the engine's random numbers
  only through the seed of the parameters. Two runs with the same parameters, from any
  two sets of files and on any two engines that agree at \<^verbatim>\<open>params['seed']\<close>, produce the
  same four files or fail with the same error.
\<close>

theorem run_simulation_deterministic:
  assumes "same_at_seed (seed p) eng1 eng2"
  shows "produced (run_simulation eng1 p fs1) = produced (run_simulation eng2 p fs2)
    \<and> produced (run_simulation eng1 p fs1) =
        (case initialize_snapshot (float_pow eng1) p of
           Inl e \<Rightarrow> Inl e
         | Inr s \<Rightarrow>
            (case stage_compress eng1 p (stage_randomize eng1 p s) of
               Inl e \<Rightarrow> Inl e
             | Inr c \<Rightarrow>
                Inr [Some [s], Some [frame_of (stage_randomize eng1 p s)], Some [frame_of c],
                     Some (stage_equilibrate eng1 p c)]))
    \<and> (case run_simulation eng1 p fs1 of
          Inl e \<Rightarrow> True
        | Inr fs \<Rightarrow>
            fs ''lattice.gsd'' \<noteq> None \<and> fs ''random.gsd'' \<noteq> None
            \<and> fs ''compressed.gsd'' \<noteq> None
            \<and> (\<exists>tr. fs ''trajectory.gsd'' = Some tr \<and> length tr = 200))"
proof (intro conjI)
  have f: "float_pow eng1 = float_pow eng2" using assms by (simp add: same_at_seed_def)
  show "produced (run_simulation eng1 p fs1) = produced (run_simulation eng2 p fs2)"
    by (simp only: produced_run_simulation f stage_randomize_cong [OF assms]
        stage_compress_cong [OF assms] stage_equilibrate_cong [OF assms])
  show "produced (run_simulation eng1 p fs1) =
        (case initialize_snapshot (float_pow eng1) p of
           Inl e \<Rightarrow> Inl e
         | Inr s \<Rightarrow>
            (case stage_compress eng1 p (stage_randomize eng1 p s) of
               Inl e \<Rightarrow> Inl e
             | Inr c \<Rightarrow>
                Inr [Some [s], Some [frame_of (stage_randomize eng1 p s)], Some [frame_of c],
                     Some (stage_equilibrate eng1 p c)]))"
    by (rule produced_run_simulation)
  show "case run_simulation eng1 p fs1 of
          Inl e \<Rightarrow> True
        | Inr fs \<Rightarrow>
            fs ''lattice.gsd'' \<noteq> None \<and> fs ''random.gsd'' \<noteq> None
            \<and> fs ''compressed.gsd'' \<noteq> None
            \<and> (\<exists>tr. fs ''trajectory.gsd'' = Some tr \<and> length tr = 200)"
    unfolding run_simulation_result
    by (simp add: gsd_write_def length_stage_equilibrate split: sum.splits)
qed

lemma same_at_seed_reseeded: "same_at_seed 1 (frozen_engine 0) reseeded_engine"
  by (simp add: same_at_seed_def reseeded_engine_def frozen_engine_def fun_eq_iff)

theorem run_simulation_deterministic_witness:
  "same_at_seed (seed example_params) (frozen_engine 0) reseeded_engine
   \<and> draw_scale (frozen_engine 0) 2 0 \<noteq> draw_scale reseeded_engine 2 0
   \<and> produced (run_simulation (frozen_engine 0) example_params Map.empty)
     = produced (run_simulation reseeded_engine example_params random_files)"
proof -
  have s: "seed example_params = 1" by (simp add: example_params_def)
  have h: "same_at_seed (seed example_params) (frozen_engine 0) reseeded_engine"
    unfolding s by (rule same_at_seed_reseeded)
  have d: "draw_scale (frozen_engine 0) 2 0 \<noteq> draw_scale reseeded_engine 2 0"
    by (simp add: reseeded_engine_def frozen_engine_def)
  from run_simulation_deterministic [OF h, of Map.empty random_files] h d show ?thesis
    by blast
qed

end
